theory Spec2Isabelle
  imports Complex_Main "HOL-Library.Multiset"
begin

section \<open>JavaScript numbers and dates\<close>

text \<open>
  A JavaScript \<open>number\<close> is a finite value, one of the two infinities, or NaN.
  A finite value is a real number of magnitude at most \<open>Number.MAX_VALUE\<close>; the result of
  an arithmetic operation on finite values that lies beyond that magnitude overflows to
  an infinity.  Rounding within the finite range is not modelled, and the two zeros are
  not distinguished (a zero divisor counts as +0, which is what a sum started at the
  literal \<open>0\<close> yields).  Division by zero does not throw, it yields an infinity or NaN,
  and every comparison with NaN is false.
\<close>

datatype number = Fin real | PosInf | NegInf | NaN

definition maxValue :: real where
  "maxValue = (2 - 1 / 2 ^ 52) * 2 ^ 1023"

text \<open>The number that a real-valued result of an operation becomes.\<close>

definition fromReal :: "real \<Rightarrow> number" where
  "fromReal r = (if maxValue < r then PosInf else if r < - maxValue then NegInf else Fin r)"

fun nadd :: "number \<Rightarrow> number \<Rightarrow> number" where
  "nadd (Fin a) (Fin b) = fromReal (a + b)"
| "nadd NaN y = NaN"
| "nadd x NaN = NaN"
| "nadd PosInf NegInf = NaN"
| "nadd NegInf PosInf = NaN"
| "nadd PosInf y = PosInf"
| "nadd x PosInf = PosInf"
| "nadd NegInf y = NegInf"
| "nadd x NegInf = NegInf"

fun nneg :: "number \<Rightarrow> number" where
  "nneg (Fin a) = Fin (- a)"
| "nneg PosInf = NegInf"
| "nneg NegInf = PosInf"
| "nneg NaN = NaN"

definition nsub :: "number \<Rightarrow> number \<Rightarrow> number" where
  "nsub x y = nadd x (nneg y)"

fun nmul :: "number \<Rightarrow> number \<Rightarrow> number" where
  "nmul (Fin a) (Fin b) = fromReal (a * b)"
| "nmul NaN y = NaN"
| "nmul x NaN = NaN"
| "nmul (Fin a) PosInf = (if a = 0 then NaN else if 0 < a then PosInf else NegInf)"
| "nmul (Fin a) NegInf = (if a = 0 then NaN else if 0 < a then NegInf else PosInf)"
| "nmul PosInf (Fin b) = (if b = 0 then NaN else if 0 < b then PosInf else NegInf)"
| "nmul NegInf (Fin b) = (if b = 0 then NaN else if 0 < b then NegInf else PosInf)"
| "nmul PosInf PosInf = PosInf"
| "nmul NegInf NegInf = PosInf"
| "nmul PosInf NegInf = NegInf"
| "nmul NegInf PosInf = NegInf"

fun ndiv :: "number \<Rightarrow> number \<Rightarrow> number" where
  "ndiv (Fin a) (Fin b) =
     (if b \<noteq> 0 then fromReal (a / b)
      else if 0 < a then PosInf else if a < 0 then NegInf else NaN)"
| "ndiv NaN y = NaN"
| "ndiv x NaN = NaN"
| "ndiv (Fin a) y = Fin 0"
| "ndiv PosInf (Fin b) = (if b < 0 then NegInf else PosInf)"
| "ndiv NegInf (Fin b) = (if b < 0 then PosInf else NegInf)"
| "ndiv x y = NaN"

fun ngt :: "number \<Rightarrow> number \<Rightarrow> bool" where
  "ngt (Fin a) (Fin b) = (b < a)"
| "ngt NaN y = False"
| "ngt x NaN = False"
| "ngt PosInf PosInf = False"
| "ngt PosInf y = True"
| "ngt x NegInf = (x \<noteq> NegInf)"
| "ngt x y = False"

definition nlt :: "number \<Rightarrow> number \<Rightarrow> bool" where
  "nlt x y = ngt y x"

text \<open>\<open>Math.max\<close> and \<open>Math.min\<close> of two arguments: NaN if either is NaN.\<close>

definition Math_max :: "number \<Rightarrow> number \<Rightarrow> number" where
  "Math_max x y = (if x = NaN \<or> y = NaN then NaN else if ngt y x then y else x)"

definition Math_min :: "number \<Rightarrow> number \<Rightarrow> number" where
  "Math_min x y = (if x = NaN \<or> y = NaN then NaN else if ngt x y then y else x)"

fun Math_floor :: "number \<Rightarrow> number" where
  "Math_floor (Fin a) = Fin (of_int \<lfloor>a\<rfloor>)"
| "Math_floor x = x"

fun Math_ceil :: "number \<Rightarrow> number" where
  "Math_ceil (Fin a) = Fin (of_int \<lceil>a\<rceil>)"
| "Math_ceil x = x"

fun Math_sqrt :: "number \<Rightarrow> number" where
  "Math_sqrt (Fin a) = (if a < 0 then NaN else Fin (sqrt a))"
| "Math_sqrt PosInf = PosInf"
| "Math_sqrt x = NaN"

text \<open>\<open>Math.pow(x, 2)\<close>.\<close>

fun Math_pow2 :: "number \<Rightarrow> number" where
  "Math_pow2 (Fin a) = fromReal (a\<^sup>2)"
| "Math_pow2 NaN = NaN"
| "Math_pow2 x = PosInf"

text \<open>
  A \<open>Date\<close> holds a time value in milliseconds since the epoch, or is invalid.
  Calendar arithmetic is done in UTC (no daylight-saving shifts), so a day is always
  \<open>msPerDay\<close> milliseconds.
\<close>

datatype jsdate = Date int | InvalidDate

definition msPerDay :: int where
  "msPerDay = 1000 * 60 * 60 * 24"

definition maxTime :: int where
  "maxTime = 8640000000000000"

text \<open>\<open>getDay()\<close> of a valid date: 0 is Sunday; the epoch was a Thursday.\<close>

definition getDay :: "int \<Rightarrow> nat" where
  "getDay t = nat ((t div msPerDay + 4) mod 7)"

text \<open>
  \<open>d.setDate(d.getDate() + n)\<close> on a valid date with time value \<open>t\<close>: the date becomes
  invalid when \<open>n\<close> is not finite or the result leaves the range of time values.  At both
  call sites \<open>n\<close> is a whole number of days.
\<close>

fun addDays :: "int \<Rightarrow> number \<Rightarrow> jsdate" where
  "addDays t (Fin n) =
     (let tv = t + \<lfloor>n\<rfloor> * msPerDay
      in if \<bar>tv\<bar> \<le> maxTime then Date tv else InvalidDate)"
| "addDays t x = InvalidDate"

section \<open>Time-series forecasting utilities\<close>

text \<open>
  A sales data point: the time value of its (valid) date and the quantity sold, a finite
  number of either sign, as the rows of the database give it.
\<close>

record SalesDataPoint =
  date :: int
  quantity :: real

record ForecastResult =
  predictedRunoutDate :: jsdate
  suggestedReorderQuantity :: number
  confidence :: number
  dailyAverageSales :: number
  seasonalFactor :: number

text \<open>\<open>data.reduce((sum, p) => sum + p.quantity, 0)\<close>\<close>

definition sumQuantity :: "SalesDataPoint list \<Rightarrow> number" where
  "sumQuantity data = foldl (\<lambda>acc point. nadd acc (Fin (quantity point))) (Fin 0) data"

text \<open>\<open>data.slice(-windowSize)\<close>; \<open>slice(-0)\<close> is the whole array.\<close>

definition sliceLast :: "nat \<Rightarrow> 'a list \<Rightarrow> 'a list" where
  "sliceLast windowSize data =
     (if windowSize = 0 then data else drop (length data - windowSize) data)"

definition calculateMovingAverage :: "SalesDataPoint list \<Rightarrow> nat \<Rightarrow> number" where
  "calculateMovingAverage data windowSize =
     (if length data = 0 then Fin 0
      else let recentData = sliceLast windowSize data;
               sum = sumQuantity recentData
           in ndiv sum (Fin (real (length recentData))))"

text \<open>The \<open>forEach\<close> body of \<open>calculateSeasonalFactor\<close>, on the pair of arrays.\<close>

definition addToDay ::
  "number list \<times> nat list \<Rightarrow> SalesDataPoint \<Rightarrow> number list \<times> nat list" where
  "addToDay acc point =
     (let dayTotals = fst acc; dayCounts = snd acc;
          dayOfWeek = getDay (date point)
      in (dayTotals[dayOfWeek := nadd (dayTotals ! dayOfWeek) (Fin (quantity point))],
          dayCounts[dayOfWeek := dayCounts ! dayOfWeek + 1]))"

definition dayAverage :: "number \<times> nat \<Rightarrow> number" where
  "dayAverage tc = (if 0 < snd tc then ndiv (fst tc) (Fin (real (snd tc))) else Fin 0)"

text \<open>
  The system clock is a sequence of readings; \<open>clk k\<close> is the time value that the
  \<open>k\<close>-th read (\<open>new Date()\<close> or \<open>Date.now()\<close>) returns.  A function that
  reads the clock takes the number of reads made so far and returns the new count.
\<close>

type_synonym clock = "nat \<Rightarrow> int"

definition calculateSeasonalFactor :: "clock \<Rightarrow> nat \<Rightarrow> SalesDataPoint list \<Rightarrow> number \<times> nat" where
  "calculateSeasonalFactor clk k data =
     (if length data < 14 then (Fin 1, k)
      else let groups = foldl addToDay (replicate 7 (Fin 0), replicate 7 0) data;
               dayAverages = map dayAverage (zip (fst groups) (snd groups));
               overallAvg = ndiv (foldl nadd (Fin 0) dayAverages) (Fin 7);
               today = getDay (clk k);
               todayAvg = dayAverages ! today
           in (if ngt overallAvg (Fin 0) then ndiv todayAvg overallAvg else Fin 1, Suc k))"

definition calculateConfidence :: "SalesDataPoint list \<Rightarrow> number" where
  "calculateConfidence data =
     (if length data = 0 then Fin 0.1
      else if length data < 7 then Fin 0.4
      else if length data < 30 then Fin 0.6
      else let n = Fin (real (length data));
               avg = ndiv (sumQuantity data) n;
               variance =
                 ndiv (foldl (\<lambda>sum p. nadd sum (Math_pow2 (nsub (Fin (quantity p)) avg)))
                         (Fin 0) data) n;
               stdDev = Math_sqrt variance;
               coefficientOfVariation = (if ngt avg (Fin 0) then ndiv stdDev avg else Fin 1)
           in Math_max (Fin 0.6)
                (Math_min (Fin 0.95) (nsub (Fin 0.95) (nmul coefficientOfVariation (Fin 0.35)))))"

datatype trend = Increasing | Decreasing | Stable

text \<open>The value \<open>change\<close> of \<open>detectTrend\<close>: relative change of the half averages.\<close>

definition trendChange :: "SalesDataPoint list \<Rightarrow> number" where
  "trendChange data =
     (let firstHalf = take (length data div 2) data;
          secondHalf = drop (length data div 2) data;
          firstAvg = ndiv (sumQuantity firstHalf) (Fin (real (length firstHalf)));
          secondAvg = ndiv (sumQuantity secondHalf) (Fin (real (length secondHalf)))
      in ndiv (nsub secondAvg firstAvg) firstAvg)"

definition detectTrend :: "SalesDataPoint list \<Rightarrow> trend" where
  "detectTrend data =
     (if length data < 7 then Stable
      else let change = trendChange data
           in if ngt change (Fin 0.15) then Increasing
              else if nlt change (Fin (- 0.15)) then Decreasing
              else Stable)"

definition trendFactor :: "trend \<Rightarrow> number" where
  "trendFactor tr =
     (if tr = Increasing then Fin 1.15 else if tr = Decreasing then Fin 0.85 else Fin 1)"

text \<open>
  \<open>predictStockNeeds\<close>.  The lead time and the safety-stock days are finite numbers; their
  sum \<open>reorderDays\<close> is taken as finite too.
\<close>

definition predictStockNeeds ::
  "clock \<Rightarrow> nat \<Rightarrow> SalesDataPoint list \<Rightarrow> real \<Rightarrow> real \<Rightarrow> real \<Rightarrow> ForecastResult \<times> nat" where
  "predictStockNeeds clk k salesHistory currentStock leadTimeDays safetyStockDays =
     (let movingAvg = calculateMovingAverage salesHistory 7;
          sf = calculateSeasonalFactor clk k salesHistory;
          conf = calculateConfidence salesHistory;
          tr = detectTrend salesHistory;
          adjustedDailySales = nmul (nmul movingAvg (fst sf)) (trendFactor tr);
          daysUntilStockout =
            (if ngt adjustedDailySales (Fin 0) then ndiv (Fin currentStock) adjustedDailySales
             else Fin 9999);
          runoutDate = addDays (clk (snd sf)) (Math_floor daysUntilStockout);
          reorderDays = leadTimeDays + safetyStockDays;
          suggested = Math_ceil (nmul adjustedDailySales (Fin reorderDays))
      in (\<lparr> predictedRunoutDate = runoutDate,
            suggestedReorderQuantity = Math_max suggested (Fin 10),
            confidence = conf,
            dailyAverageSales = adjustedDailySales,
            seasonalFactor = fst sf \<rparr>, Suc (snd sf)))"

section \<open>Forecasting service\<close>

datatype urgency = Critical | High | Medium | Low

record StockForecast =
  product_id :: string
  product_name :: string
  current_stock :: real
  predicted_runout_date :: int
  days_until_runout :: int
  suggested_reorder_quantity :: number
  confidence_score :: number
  urgency :: urgency
  should_reorder :: bool

text \<open>Rows of the tables the service selects from, with the selected columns.\<close>

record Product =
  p_id :: string
  p_name :: string
  p_quantity :: real

record ListedProduct = Product +
  low_stock_threshold :: real

record DailySalesRow =
  row_date :: int
  quantity_sold :: real

record InvoiceItemRow =
  item_quantity :: real
  created_at :: int

record ReorderRuleRow =
  lead_time_days :: "real option"
  safety_stock :: "real option"

text \<open>The \<open>{ data, error }\<close> object a query resolves to.\<close>

record 'a response =
  resp_data :: "'a option"
  resp_error :: "string option"

text \<open>
  The database client, as the answers it gives to the five queries of the service.
  The \<open>gte\<close> bound of the daily-sales query is a UTC date string, given here as the
  day number; the bound of the invoice query is a time value.
\<close>

record supabase =
  products_single :: "string \<Rightarrow> string \<Rightarrow> Product response"
  sales_history_daily :: "string \<Rightarrow> string \<Rightarrow> int \<Rightarrow> DailySalesRow list response"
  invoice_items_paid :: "string \<Rightarrow> string \<Rightarrow> int \<Rightarrow> InvoiceItemRow list response"
  reorder_rules_single :: "string \<Rightarrow> string \<Rightarrow> ReorderRuleRow response"
  products_of_user :: "string \<Rightarrow> ListedProduct list response"

datatype error = ProductNotFound | RangeError | FetchFailed string

text \<open>
  \<open>dailyMap.set(date, (dailyMap.get(date) || 0) + item.quantity)\<close> on a \<open>Map\<close> kept in
  insertion order; the key is the UTC day of \<open>created_at\<close>.
  The quantities of a row and of a sales point are finite numbers, as a JSON answer
  carries them; the total of a day's invoice items is taken as finite too.
\<close>

fun mapSet :: "'k \<Rightarrow> 'v \<Rightarrow> ('k \<times> 'v) list \<Rightarrow> ('k \<times> 'v) list" where
  "mapSet key v [] = [(key, v)]"
| "mapSet key v (e # es) = (if fst e = key then (key, v) # es else e # mapSet key v es)"

definition addInvoiceItem :: "(int \<times> real) list \<Rightarrow> InvoiceItemRow \<Rightarrow> (int \<times> real) list" where
  "addInvoiceItem dailyMap item =
     (let day = created_at item div msPerDay;
          prev = (case map_of dailyMap day of Some q \<Rightarrow> q | None \<Rightarrow> 0)
      in mapSet day (prev + item_quantity item) dailyMap)"

definition getSalesHistory ::
  "supabase \<Rightarrow> clock \<Rightarrow> nat \<Rightarrow> string \<Rightarrow> string \<Rightarrow> int
     \<Rightarrow> (error + SalesDataPoint list) \<times> nat" where
  "getSalesHistory sb clk k userId productId days =
     (case addDays (clk k) (Fin (- of_int days)) of
        InvalidDate \<Rightarrow> (Inl RangeError, Suc k)
      | Date startDate \<Rightarrow>
          (let aggregated =
                 resp_data (sales_history_daily sb userId productId (startDate div msPerDay));
               invoiceItems = resp_data (invoice_items_paid sb userId productId startDate);
               dailyMap =
                 foldl addInvoiceItem []
                   (case invoiceItems of Some items \<Rightarrow> items | None \<Rightarrow> []);
               fromInvoices =
                 map (\<lambda>e. \<lparr> date = fst e * msPerDay, quantity = snd e \<rparr>) dailyMap
           in (Inr (case aggregated of
                      Some rows \<Rightarrow>
                        if 0 < length rows
                        then map (\<lambda>row. \<lparr> date = row_date row, quantity = quantity_sold row \<rparr>) rows
                        else fromInvoices
                    | None \<Rightarrow> fromInvoices), Suc k)))"

text \<open>
  \<open>reorderRule?.lead_time_days || 7\<close> and
  \<open>reorderRule?.safety_stock ? Math.ceil(reorderRule.safety_stock / 10) : 3\<close>:
  a missing rule, a null column and the number 0 are all falsy.
\<close>

definition ruleLeadTimeDays :: "ReorderRuleRow option \<Rightarrow> real" where
  "ruleLeadTimeDays reorderRule =
     (case reorderRule of
        None \<Rightarrow> 7
      | Some r \<Rightarrow> (case lead_time_days r of
                    None \<Rightarrow> 7
                  | Some l \<Rightarrow> if l \<noteq> 0 then l else 7))"

definition ruleSafetyStockDays :: "ReorderRuleRow option \<Rightarrow> real" where
  "ruleSafetyStockDays reorderRule =
     (case reorderRule of
        None \<Rightarrow> 3
      | Some r \<Rightarrow> (case safety_stock r of
                    None \<Rightarrow> 3
                  | Some s \<Rightarrow> if s \<noteq> 0 then of_int \<lceil>s / 10\<rceil> else 3))"

definition urgencyOf :: "int \<Rightarrow> urgency" where
  "urgencyOf daysUntilRunout =
     (if daysUntilRunout \<le> 3 then Critical
      else if daysUntilRunout \<le> 7 then High
      else if daysUntilRunout \<le> 14 then Medium
      else Low)"

text \<open>
  \<open>predictSingleProduct\<close>.  When the runout date is invalid, \<open>toISOString()\<close> throws a
  RangeError, so the values computed from it before are never returned.
\<close>

definition predictSingleProduct ::
  "supabase \<Rightarrow> clock \<Rightarrow> nat \<Rightarrow> string \<Rightarrow> string \<Rightarrow> real
     \<Rightarrow> (error + StockForecast) \<times> nat" where
  "predictSingleProduct sb clk k userId productId daysAhead =
     (let found = products_single sb userId productId
      in case (resp_error found, resp_data found) of
           (None, Some product) \<Rightarrow>
             (case getSalesHistory sb clk k userId productId 30 of
                (Inl e, k1) \<Rightarrow> (Inl e, k1)
              | (Inr salesHistory, k1) \<Rightarrow>
                  (let reorderRule = resp_data (reorder_rules_single sb userId productId);
                       leadTimeDays = ruleLeadTimeDays reorderRule;
                       safetyStockDays = ruleSafetyStockDays reorderRule;
                       fc = predictStockNeeds clk k1 salesHistory (p_quantity product)
                              leadTimeDays safetyStockDays;
                       forecast = fst fc;
                       dateNow = clk (snd fc)
                   in case predictedRunoutDate forecast of
                        InvalidDate \<Rightarrow> (Inl RangeError, Suc (snd fc))
                      | Date runout \<Rightarrow>
                          (let daysUntilRunout = max 0 ((runout - dateNow) div msPerDay)
                           in (Inr \<lparr> product_id = p_id product,
                                     product_name = p_name product,
                                     current_stock = p_quantity product,
                                     predicted_runout_date = runout,
                                     days_until_runout = daysUntilRunout,
                                     suggested_reorder_quantity =
                                       suggestedReorderQuantity forecast,
                                     confidence_score = confidence forecast,
                                     urgency = urgencyOf daysUntilRunout,
                                     should_reorder =
                                       (of_int daysUntilRunout \<le> leadTimeDays) \<rparr>,
                               Suc (snd fc)))))
         | _ \<Rightarrow> (Inl ProductNotFound, k))"

datatype timePeriod = Week | Month

record options =
  includeAllProducts :: "bool option"
  onlyLowStock :: "bool option"
  timePeriod :: "timePeriod option"

text \<open>The \<open>for\<close> loop with its \<open>try\<close>/\<open>catch\<close>: a failed product is logged and skipped.\<close>

fun forecastLoop ::
  "supabase \<Rightarrow> clock \<Rightarrow> nat \<Rightarrow> string \<Rightarrow> real \<Rightarrow> ListedProduct list
     \<Rightarrow> StockForecast list \<Rightarrow> StockForecast list \<times> nat" where
  "forecastLoop sb clk k userId daysAhead [] forecasts = (forecasts, k)"
| "forecastLoop sb clk k userId daysAhead (product # rest) forecasts =
     (case predictSingleProduct sb clk k userId (p_id product) daysAhead of
        (Inr forecast, k1) \<Rightarrow>
          forecastLoop sb clk k1 userId daysAhead rest (forecasts @ [forecast])
      | (Inl e, k1) \<Rightarrow> forecastLoop sb clk k1 userId daysAhead rest forecasts)"

fun urgencyOrder :: "urgency \<Rightarrow> int" where
  "urgencyOrder Critical = 0"
| "urgencyOrder High = 1"
| "urgencyOrder Medium = 2"
| "urgencyOrder Low = 3"

text \<open>
  \<open>Array.prototype.sort\<close> with a comparator: a stable sort, here by insertion.  An
  element is placed before the first one it does not compare greater than.
\<close>

fun insertBy :: "('a \<Rightarrow> 'a \<Rightarrow> int) \<Rightarrow> 'a \<Rightarrow> 'a list \<Rightarrow> 'a list" where
  "insertBy cmp x [] = [x]"
| "insertBy cmp x (y # ys) = (if cmp x y \<le> 0 then x # y # ys else y # insertBy cmp x ys)"

definition sortBy :: "('a \<Rightarrow> 'a \<Rightarrow> int) \<Rightarrow> 'a list \<Rightarrow> 'a list" where
  "sortBy cmp xs = foldr (insertBy cmp) xs []"

definition compareUrgency :: "StockForecast \<Rightarrow> StockForecast \<Rightarrow> int" where
  "compareUrgency a b = urgencyOrder (urgency a) - urgencyOrder (urgency b)"

definition getRestockRecommendations ::
  "supabase \<Rightarrow> clock \<Rightarrow> nat \<Rightarrow> string \<Rightarrow> options \<Rightarrow> (error + StockForecast list) \<times> nat" where
  "getRestockRecommendations sb clk k userId opts =
     (let period = (case timePeriod opts of Some p \<Rightarrow> p | None \<Rightarrow> Week);
          daysAhead = (if period = Week then 7 else 30);
          fetched = products_of_user sb userId
      in case resp_error fetched of
           Some msg \<Rightarrow> (Inl (FetchFailed msg), k)
         | None \<Rightarrow>
             (let products =
                    (if onlyLowStock opts = Some True
                     then Some (filter (\<lambda>p. p_quantity p \<le> low_stock_threshold p)
                                  (case resp_data fetched of Some ps \<Rightarrow> ps | None \<Rightarrow> []))
                     else resp_data fetched)
              in case products of
                   None \<Rightarrow> (Inr [], k)
                 | Some ps \<Rightarrow>
                     if length ps = 0 then (Inr [], k)
                     else (let done = forecastLoop sb clk k userId daysAhead ps []
                           in (Inr (sortBy compareUrgency (fst done)), snd done))))"

section \<open>Values used to state the properties\<close>

text \<open>
  A series of the data model in the range where no sum of the engine overflows: at most
  a million points, every quantity between 0 and \<open>10^150\<close>.
\<close>

definition maxQuantity :: real where
  "maxQuantity = 10 ^ 150"

definition maxPoints :: nat where
  "maxPoints = 1000000"

definition ordinarySeries :: "SalesDataPoint list \<Rightarrow> bool" where
  "ordinarySeries xs =
     (length xs \<le> maxPoints
      \<and> list_all (\<lambda>p. 0 \<le> quantity p \<and> quantity p \<le> maxQuantity) xs)"

text \<open>
  The real number that each function of the engine computes on such a series.  The lemmas
  below show that the functions return these numbers as finite values.
\<close>

definition movingAverageValue :: "SalesDataPoint list \<Rightarrow> real" where
  "movingAverageValue xs =
     (if xs = [] then 0
      else sum_list (map quantity (sliceLast 7 xs)) / real (length (sliceLast 7 xs)))"

text \<open>Total, count and mean of the quantities per weekday, and the seasonal factor.\<close>

definition dayTotal :: "SalesDataPoint list \<Rightarrow> nat \<Rightarrow> real" where
  "dayTotal xs w = sum_list (map quantity (filter (\<lambda>p. getDay (date p) = w) xs))"

definition dayCount :: "SalesDataPoint list \<Rightarrow> nat \<Rightarrow> nat" where
  "dayCount xs w = length (filter (\<lambda>p. getDay (date p) = w) xs)"

definition dayAverageValue :: "SalesDataPoint list \<Rightarrow> nat \<Rightarrow> real" where
  "dayAverageValue xs w = (if 0 < dayCount xs w then dayTotal xs w / real (dayCount xs w) else 0)"

definition overallAverageValue :: "SalesDataPoint list \<Rightarrow> real" where
  "overallAverageValue xs = sum_list (map (dayAverageValue xs) [0..<7]) / 7"

definition seasonalFactorValue :: "nat \<Rightarrow> SalesDataPoint list \<Rightarrow> real" where
  "seasonalFactorValue today xs =
     (if length xs < 14 then 1
      else if 0 < overallAverageValue xs then dayAverageValue xs today / overallAverageValue xs
      else 1)"

text \<open>Mean and (population) standard deviation of the quantities of a series.\<close>

definition meanValue :: "SalesDataPoint list \<Rightarrow> real" where
  "meanValue xs = sum_list (map quantity xs) / real (length xs)"

definition stddevValue :: "SalesDataPoint list \<Rightarrow> real" where
  "stddevValue xs =
     sqrt (sum_list (map (\<lambda>p. (quantity p - meanValue xs)\<^sup>2) xs) / real (length xs))"

definition clamp :: "real \<Rightarrow> real \<Rightarrow> real \<Rightarrow> real" where
  "clamp x lo hi = max lo (min hi x)"

text \<open>The coefficient of variation as the specification words it.\<close>

definition variationSpec :: "SalesDataPoint list \<Rightarrow> real" where
  "variationSpec xs = (if meanValue xs = 0 then 1 else stddevValue xs / meanValue xs)"

text \<open>The trend multiplier, the adjusted daily sales and the days until stockout.\<close>

definition trendFactorValue :: "trend \<Rightarrow> real" where
  "trendFactorValue tr = (if tr = Increasing then 1.15 else if tr = Decreasing then 0.85 else 1)"

definition adjustedSalesValue :: "nat \<Rightarrow> SalesDataPoint list \<Rightarrow> real" where
  "adjustedSalesValue today xs =
     movingAverageValue xs * seasonalFactorValue today xs * trendFactorValue (detectTrend xs)"

definition stockoutDays :: "nat \<Rightarrow> SalesDataPoint list \<Rightarrow> real \<Rightarrow> number" where
  "stockoutDays today xs currentStock =
     (if 0 < adjustedSalesValue today xs
      then fromReal (currentStock / adjustedSalesValue today xs)
      else Fin 9999)"

text \<open>
  The clock position after \<open>calculateSeasonalFactor\<close>, which reads the clock only for a
  series of 14 points or more.
\<close>

definition seasonalTicks :: "nat \<Rightarrow> SalesDataPoint list \<Rightarrow> nat" where
  "seasonalTicks k xs = (if length xs < 14 then k else Suc k)"

text \<open>The invariant of the data model on a series: no quantity is negative.\<close>

definition nonnegQuantities :: "SalesDataPoint list \<Rightarrow> bool" where
  "nonnegQuantities xs = list_all (\<lambda>p. 0 \<le> quantity p) xs"

text \<open>The products the loop of \<open>getRestockRecommendations\<close> runs over.\<close>

definition catalogOf :: "supabase \<Rightarrow> string \<Rightarrow> options \<Rightarrow> ListedProduct list" where
  "catalogOf sb userId opts =
     (let fetched = (case resp_data (products_of_user sb userId) of Some ps \<Rightarrow> ps | None \<Rightarrow> [])
      in if onlyLowStock opts = Some True
         then filter (\<lambda>p. p_quantity p \<le> low_stock_threshold p) fetched
         else fetched)"

definition daysAheadOf :: "options \<Rightarrow> real" where
  "daysAheadOf opts = (if timePeriod opts = Some Month then 30 else 7)"

text \<open>
  The outcome of \<open>predictSingleProduct\<close> for each product in turn, started at the clock
  position the previous one left, and the forecasts among the outcomes.
\<close>

fun attempts ::
  "supabase \<Rightarrow> clock \<Rightarrow> nat \<Rightarrow> string \<Rightarrow> real \<Rightarrow> ListedProduct list
     \<Rightarrow> (error + StockForecast) list" where
  "attempts sb clk k userId daysAhead [] = []"
| "attempts sb clk k userId daysAhead (product # rest) =
     fst (predictSingleProduct sb clk k userId (p_id product) daysAhead)
       # attempts sb clk (snd (predictSingleProduct sb clk k userId (p_id product) daysAhead))
           userId daysAhead rest"

fun forecastsOf :: "(error + StockForecast) list \<Rightarrow> StockForecast list" where
  "forecastsOf [] = []"
| "forecastsOf (Inr forecast # rest) = forecast # forecastsOf rest"
| "forecastsOf (Inl e # rest) = forecastsOf rest"

text \<open>The sort key of the comparator, and the results of a given urgency.\<close>

definition urgencyRank :: "StockForecast \<Rightarrow> int" where
  "urgencyRank forecast = urgencyOrder (urgency forecast)"

definition sameUrgency :: "urgency \<Rightarrow> StockForecast \<Rightarrow> bool" where
  "sameUrgency u forecast = (urgency forecast = u)"

text \<open>The order of the results as the specification words it.\<close>

definition rankedBefore :: "StockForecast \<Rightarrow> StockForecast \<Rightarrow> bool" where
  "rankedBefore a b =
     (urgencyRank a < urgencyRank b
      \<or> (urgencyRank a = urgencyRank b \<and> days_until_runout a \<le> days_until_runout b))"

section \<open>Concrete series, clocks and database answers\<close>

text \<open>\<open>n\<close> consecutive days from the time value \<open>t\<close>, each with quantity \<open>q\<close>.\<close>

definition constantSeries :: "int \<Rightarrow> nat \<Rightarrow> real \<Rightarrow> SalesDataPoint list" where
  "constantSeries t n q =
     map (\<lambda>i. \<lparr> date = t + int i * msPerDay, quantity = q \<rparr>) [0..<n]"


text \<open>\<open>n\<close> points a week apart from the epoch (all Thursdays), each with quantity \<open>q\<close>.\<close>

definition weeklySeries :: "nat \<Rightarrow> real \<Rightarrow> SalesDataPoint list" where
  "weeklySeries n q = map (\<lambda>i. \<lparr> date = int i * (7 * msPerDay), quantity = q \<rparr>) [0..<n]"

text \<open>A clock that returns the same time value at every read.\<close>

definition pinnedClock :: "int \<Rightarrow> clock" where
  "pinnedClock t = (\<lambda>k. t)"

text \<open>
  A client backed by fixed tables, for concrete inputs: the products that a lookup by id
  finds, the catalog that the listing returns, the daily sales rows and the reorder rule of
  each product id.  It has no invoice items.
\<close>

definition tableClient ::
  "(string \<times> Product) list \<Rightarrow> ListedProduct list \<Rightarrow> (string \<times> DailySalesRow list) list
     \<Rightarrow> (string \<times> ReorderRuleRow) list \<Rightarrow> supabase" where
  "tableClient found listed sales rules =
     \<lparr> products_single = (\<lambda>userId productId.
          case map_of found productId of
            Some row \<Rightarrow> \<lparr> resp_data = Some row, resp_error = None \<rparr>
          | None \<Rightarrow> \<lparr> resp_data = None, resp_error = Some ''no rows'' \<rparr>),
       sales_history_daily = (\<lambda>userId productId bound.
          \<lparr> resp_data = Some (case map_of sales productId of Some rows \<Rightarrow> rows | None \<Rightarrow> []),
            resp_error = None \<rparr>),
       invoice_items_paid = (\<lambda>userId productId bound.
          \<lparr> resp_data = Some [], resp_error = None \<rparr>),
       reorder_rules_single = (\<lambda>userId productId.
          case map_of rules productId of
            Some row \<Rightarrow> \<lparr> resp_data = Some row, resp_error = None \<rparr>
          | None \<Rightarrow> \<lparr> resp_data = None, resp_error = Some ''no rows'' \<rparr>),
       products_of_user = (\<lambda>userId. \<lparr> resp_data = Some listed, resp_error = None \<rparr>) \<rparr>"

text \<open>The rows of \<open>n\<close> consecutive days from \<open>t\<close> with \<open>q\<close> sold each day, and some products.\<close>

definition dailyRows :: "int \<Rightarrow> nat \<Rightarrow> real \<Rightarrow> DailySalesRow list" where
  "dailyRows t n q = map (\<lambda>i. \<lparr> row_date = t + int i * msPerDay, quantity_sold = q \<rparr>) [0..<n]"

definition rice :: Product where
  "rice = \<lparr> p_id = ''p1'', p_name = ''Rice'', p_quantity = 50 \<rparr>"

definition oneSale :: "DailySalesRow list" where
  "oneSale = dailyRows 0 1 10"

definition ruleFiveZero :: ReorderRuleRow where
  "ruleFiveZero = \<lparr> lead_time_days = Some 5, safety_stock = Some 0 \<rparr>"

definition ruleFiveTwentyFive :: ReorderRuleRow where
  "ruleFiveTwentyFive = \<lparr> lead_time_days = Some 5, safety_stock = Some 25 \<rparr>"

definition defaultOptions :: options where
  "defaultOptions = \<lparr> includeAllProducts = None, onlyLowStock = None, timePeriod = None \<rparr>"

definition dal :: Product where
  "dal = \<lparr> p_id = ''p2'', p_name = ''Dal'', p_quantity = 20 \<rparr>"

definition sugar :: Product where
  "sugar = \<lparr> p_id = ''p3'', p_name = ''Sugar'', p_quantity = 200 \<rparr>"

definition catalogEntry :: "Product \<Rightarrow> ListedProduct" where
  "catalogEntry p = \<lparr> p_id = p_id p, p_name = p_name p, p_quantity = p_quantity p,
                low_stock_threshold = 500 \<rparr>"

definition ghost :: Product where
  "ghost = \<lparr> p_id = ''p0'', p_name = ''Ghost'', p_quantity = 1 \<rparr>"

text \<open>A catalog whose first product is gone when it is looked up.\<close>

definition shopWithGhost :: supabase where
  "shopWithGhost =
     tableClient [(''p1'', rice)] [catalogEntry ghost, catalogEntry rice] [(''p1'', oneSale)] []"

text \<open>
  A client whose two sales-history queries fail: each resolves to no data and an error,
  whatever is asked; the other three queries answer as before.
\<close>

definition historyDown :: "supabase \<Rightarrow> supabase" where
  "historyDown sb =
     sb \<lparr> sales_history_daily :=
            (\<lambda>userId productId bound. \<lparr> resp_data = None, resp_error = Some ''timeout'' \<rparr>),
          invoice_items_paid :=
            (\<lambda>userId productId bound. \<lparr> resp_data = None, resp_error = Some ''timeout'' \<rparr>) \<rparr>"

text \<open>A catalog of the rice alone, which sold 10 on day 0, with the sales history down.\<close>

definition shopHistoryDown :: supabase where
  "shopHistoryDown =
     historyDown (tableClient [(''p1'', rice)] [catalogEntry rice] [(''p1'', oneSale)] [])"

text \<open>A catalog of two products that both have more than 14 days of stock.\<close>

definition shopWellStocked :: supabase where
  "shopWellStocked =
     tableClient [(''p2'', dal), (''p3'', sugar)] [catalogEntry dal, catalogEntry sugar]
       [(''p3'', oneSale)] []"

text \<open>The forecasts of the rice, the dal and the sugar with the clock pinned at day 30.\<close>

definition riceForecast :: StockForecast where
  "riceForecast =
     \<lparr> product_id = ''p1'', product_name = ''Rice'', current_stock = 50,
       predicted_runout_date = 35 * msPerDay, days_until_runout = 5,
       suggested_reorder_quantity = Fin 100, confidence_score = Fin 0.4,
       urgency = High, should_reorder = True \<rparr>"

definition riceWithoutHistory :: StockForecast where
  "riceWithoutHistory =
     \<lparr> product_id = ''p1'', product_name = ''Rice'', current_stock = 50,
       predicted_runout_date = 10029 * msPerDay, days_until_runout = 9999,
       suggested_reorder_quantity = Fin 10, confidence_score = Fin 0.1,
       urgency = Low, should_reorder = False \<rparr>"

definition dalForecast :: StockForecast where
  "dalForecast =
     \<lparr> product_id = ''p2'', product_name = ''Dal'', current_stock = 20,
       predicted_runout_date = 10029 * msPerDay, days_until_runout = 9999,
       suggested_reorder_quantity = Fin 10, confidence_score = Fin 0.1,
       urgency = Low, should_reorder = False \<rparr>"

definition sugarForecast :: StockForecast where
  "sugarForecast =
     \<lparr> product_id = ''p3'', product_name = ''Sugar'', current_stock = 200,
       predicted_runout_date = 50 * msPerDay, days_until_runout = 20,
       suggested_reorder_quantity = Fin 100, confidence_score = Fin 0.4,
       urgency = Low, should_reorder = False \<rparr>"

section \<open>Properties\<close>

lemma maxValue_lower: "10 ^ 308 \<le> maxValue"
  by (simp add: maxValue_def)


lemma maxValue_pos: "0 < maxValue"
  using maxValue_lower by (smt (verit) zero_less_power)

lemma fromReal_within: "\<bar>r\<bar> \<le> maxValue \<Longrightarrow> fromReal r = Fin r"
  by (auto simp: fromReal_def)

lemma fromReal_small: "\<bar>r\<bar> \<le> 10 ^ 308 \<Longrightarrow> fromReal r = Fin r"
  using maxValue_lower by (intro fromReal_within) linarith

lemma maxQuantity_pos: "0 < maxQuantity"
  by (simp add: maxQuantity_def)

lemma points_quantity_le: "real maxPoints * maxQuantity \<le> maxValue"
  by (simp add: maxPoints_def maxQuantity_def maxValue_def)

lemma points_square_le: "real maxPoints * (maxQuantity * maxQuantity) \<le> maxValue"
  by (simp add: maxPoints_def maxQuantity_def maxValue_def)

lemma fourteen_quantity_le: "14 * maxQuantity \<le> maxValue"
  by (simp add: maxQuantity_def maxValue_def)

lemma maxQuantity_le: "maxQuantity \<le> maxValue"
  using fourteen_quantity_le maxQuantity_pos by linarith

lemma Math_max_Fin: "Math_max (Fin a) (Fin b) = Fin (max a b)"
  by (simp add: Math_max_def max_def)

lemma Math_min_Fin: "Math_min (Fin a) (Fin b) = Fin (min a b)"
  by (simp add: Math_min_def min_def)

lemma nsub_Fin: "nsub (Fin a) (Fin b) = fromReal (a - b)"
  by (simp add: nsub_def)

lemma foldl_nadd_Fin:
  assumes "\<forall>p\<in>set xs. g p = Fin (f p) \<and> 0 \<le> f p"
    and "0 \<le> a" and "a + sum_list (map f xs) \<le> maxValue"
  shows "foldl (\<lambda>acc p. nadd acc (g p)) (Fin a) xs = Fin (a + sum_list (map f xs))"
  using assms
proof (induction xs arbitrary: a)
  case Nil
  then show ?case by simp
next
  case (Cons x xs)
  have rest: "0 \<le> sum_list (map f xs)"
    using Cons.prems(1) by (intro sum_list_nonneg) auto
  have fx: "g x = Fin (f x)" "0 \<le> f x"
    using Cons.prems(1) by simp_all
  have "\<bar>a + f x\<bar> \<le> maxValue"
    using Cons.prems(2,3) fx(2) rest by simp
  then have step: "nadd (Fin a) (g x) = Fin (a + f x)"
    by (simp add: fx(1) fromReal_within)
  have "foldl (\<lambda>acc p. nadd acc (g p)) (Fin (a + f x)) xs =
          Fin (a + f x + sum_list (map f xs))"
    using Cons.prems fx(2) by (intro Cons.IH) (simp_all add: add.assoc)
  then show ?case
    by (simp add: step add.assoc)
qed

lemma foldl_nadd_map_Fin:
  assumes "\<forall>x\<in>set xs. 0 \<le> f x" and "0 \<le> a" and "a + sum_list (map f xs) \<le> maxValue"
  shows "foldl nadd (Fin a) (map (\<lambda>x. Fin (f x)) xs) = Fin (a + sum_list (map f xs))"
  using foldl_nadd_Fin [of xs "\<lambda>x. Fin (f x)" f a] assms
  by (simp add: foldl_map)

lemma ordinarySeries_sub:
  assumes "ordinarySeries xs" and "set ys \<subseteq> set xs" and "length ys \<le> length xs"
  shows "ordinarySeries ys"
  using assms by (auto simp: ordinarySeries_def list_all_iff)

lemma ordinarySeries_take: "ordinarySeries xs \<Longrightarrow> ordinarySeries (take n xs)"
  by (rule ordinarySeries_sub) (auto dest: in_set_takeD)

lemma ordinarySeries_drop: "ordinarySeries xs \<Longrightarrow> ordinarySeries (drop n xs)"
  by (rule ordinarySeries_sub) (auto dest: in_set_dropD)

lemma ordinarySeries_sliceLast: "ordinarySeries xs \<Longrightarrow> ordinarySeries (sliceLast n xs)"
  by (simp add: sliceLast_def ordinarySeries_drop)

lemma ordinarySeries_filter: "ordinarySeries xs \<Longrightarrow> ordinarySeries (filter P xs)"
  by (rule ordinarySeries_sub) auto

lemma ordinary_quantity:
  "ordinarySeries xs \<Longrightarrow> p \<in> set xs \<Longrightarrow> 0 \<le> quantity p \<and> quantity p \<le> maxQuantity"
  by (auto simp: ordinarySeries_def list_all_iff)

lemma sum_quantity_le:
  "list_all (\<lambda>p. quantity p \<le> b) xs \<Longrightarrow> sum_list (map quantity xs) \<le> real (length xs) * b"
  by (induction xs) (simp_all add: algebra_simps)

lemma ordinary_sum_nonneg: "ordinarySeries xs \<Longrightarrow> 0 \<le> sum_list (map quantity xs)"
  by (intro sum_list_nonneg) (auto dest: ordinary_quantity)

lemma ordinary_sum_le:
  "ordinarySeries xs \<Longrightarrow> sum_list (map quantity xs) \<le> real (length xs) * maxQuantity"
  by (intro sum_quantity_le) (auto simp: ordinarySeries_def list_all_iff)

lemma ordinary_sum_max:
  assumes "ordinarySeries xs"
  shows "sum_list (map quantity xs) \<le> maxValue"
proof -
  have "real (length xs) \<le> real maxPoints"
    using assms by (simp add: ordinarySeries_def)
  then have "real (length xs) * maxQuantity \<le> real maxPoints * maxQuantity"
    using maxQuantity_pos by (intro mult_right_mono) simp_all
  then show ?thesis
    using ordinary_sum_le [OF assms] points_quantity_le by linarith
qed

lemma sumQuantity_Fin:
  assumes "ordinarySeries xs"
  shows "sumQuantity xs = Fin (sum_list (map quantity xs))"
proof -
  have "0 + sum_list (map quantity xs) \<le> maxValue"
    using ordinary_sum_max [OF assms] by simp
  then have "foldl (\<lambda>acc p. nadd acc (Fin (quantity p))) (Fin 0) xs =
               Fin (0 + sum_list (map quantity xs))"
    using assms by (intro foldl_nadd_Fin) (auto dest: ordinary_quantity)
  then show ?thesis
    by (simp add: sumQuantity_def)
qed

lemma mean_bounds:
  assumes "ordinarySeries xs" and "xs \<noteq> []"
  shows "0 \<le> sum_list (map quantity xs) / real (length xs)"
    and "sum_list (map quantity xs) / real (length xs) \<le> maxQuantity"
proof -
  have n: "0 < real (length xs)" using assms(2) by simp
  show "0 \<le> sum_list (map quantity xs) / real (length xs)"
    using ordinary_sum_nonneg [OF assms(1)] by simp
  show "sum_list (map quantity xs) / real (length xs) \<le> maxQuantity"
    using ordinary_sum_le [OF assms(1)] n by (simp add: pos_divide_le_eq mult.commute)
qed

lemma mean_Fin:
  assumes "ordinarySeries xs" and "xs \<noteq> []"
  shows "ndiv (sumQuantity xs) (Fin (real (length xs))) =
           Fin (sum_list (map quantity xs) / real (length xs))"
proof -
  have "\<bar>sum_list (map quantity xs) / real (length xs)\<bar> \<le> maxValue"
    using mean_bounds [OF assms] maxQuantity_le by linarith
  then show ?thesis
    using assms(2) by (simp add: sumQuantity_Fin [OF assms(1)] fromReal_within)
qed

lemma sliceLast_nonempty: "xs \<noteq> [] \<Longrightarrow> sliceLast 7 xs \<noteq> []"
  by (cases xs) (simp_all add: sliceLast_def)

lemma calculateMovingAverage_Fin:
  assumes "ordinarySeries xs"
  shows "calculateMovingAverage xs 7 = Fin (movingAverageValue xs)"
proof (cases "xs = []")
  case True
  then show ?thesis
    by (simp add: calculateMovingAverage_def movingAverageValue_def)
next
  case False
  then have ne: "sliceLast 7 xs \<noteq> []"
    by (rule sliceLast_nonempty)
  show ?thesis
    using False mean_Fin [OF ordinarySeries_sliceLast [OF assms] ne]
    by (simp add: calculateMovingAverage_def movingAverageValue_def Let_def)
qed

lemma movingAverageValue_bounds:
  assumes "ordinarySeries xs"
  shows "0 \<le> movingAverageValue xs" and "movingAverageValue xs \<le> maxQuantity"
  using mean_bounds [OF ordinarySeries_sliceLast [OF assms] sliceLast_nonempty] maxQuantity_pos
  by (simp_all add: movingAverageValue_def)

lemma getDay_less: "getDay t < 7"
  by (simp add: getDay_def nat_less_iff)

lemma dayTotal_Cons:
  "dayTotal (p # xs) w = (if getDay (date p) = w then quantity p else 0) + dayTotal xs w"
  by (simp add: dayTotal_def)

lemma dayCount_Cons:
  "dayCount (p # xs) w = (if getDay (date p) = w then 1 else 0) + dayCount xs w"
  by (simp add: dayCount_def)

lemma dayTotal_nonneg: "\<forall>p\<in>set xs. 0 \<le> quantity p \<Longrightarrow> 0 \<le> dayTotal xs w"
  unfolding dayTotal_def by (intro sum_list_nonneg) auto

lemma foldl_addToDay:
  assumes "length C = 7" and "\<forall>p\<in>set xs. 0 \<le> quantity p"
    and "\<forall>w<7. 0 \<le> T w \<and> T w + dayTotal xs w \<le> maxValue"
  shows "foldl addToDay (map (\<lambda>w. Fin (T w)) [0..<7], C) xs =
     (map (\<lambda>w. Fin (T w + dayTotal xs w)) [0..<7], map (\<lambda>w. C ! w + dayCount xs w) [0..<7])"
  using assms
proof (induction xs arbitrary: T C)
  case Nil
  then show ?case
    by (simp add: dayTotal_def dayCount_def list_eq_iff_nth_eq del: upt_Suc)
next
  case (Cons p xs)
  let ?d = "getDay (date p)"
  let ?T = "T(?d := T ?d + quantity p)"
  let ?C = "C[?d := C ! ?d + 1]"
  have d: "?d < 7" by (rule getDay_less)
  have q: "0 \<le> quantity p" and nn: "\<forall>p\<in>set xs. 0 \<le> quantity p"
    using Cons.prems(2) by simp_all
  have rest: "0 \<le> dayTotal xs ?d"
    by (rule dayTotal_nonneg [OF nn])
  have Td: "0 \<le> T ?d" "T ?d + dayTotal (p # xs) ?d \<le> maxValue"
    using Cons.prems(3) d by simp_all
  then have "\<bar>T ?d + quantity p\<bar> \<le> maxValue"
    using q rest by (simp add: dayTotal_Cons)
  then have add: "fromReal (T ?d + quantity p) = Fin (T ?d + quantity p)"
    by (rule fromReal_within)
  have upd: "(map (\<lambda>w. Fin (T w)) [0..<7])[?d := Fin (T ?d + quantity p)] =
               map (\<lambda>w. Fin (?T w)) [0..<7]"
    using d by (simp add: list_eq_iff_nth_eq nth_list_update del: upt_Suc)
  have step: "addToDay (map (\<lambda>w. Fin (T w)) [0..<7], C) p = (map (\<lambda>w. Fin (?T w)) [0..<7], ?C)"
    using d by (simp add: addToDay_def Let_def add upd del: upt_Suc)
  have len: "length ?C = 7"
    using Cons.prems(1) by simp
  have bound: "\<forall>w<7. 0 \<le> ?T w \<and> ?T w + dayTotal xs w \<le> maxValue"
    using Cons.prems(3) q by (auto simp: dayTotal_Cons)
  have "foldl addToDay (map (\<lambda>w. Fin (T w)) [0..<7], C) (p # xs) =
          foldl addToDay (map (\<lambda>w. Fin (?T w)) [0..<7], ?C) xs"
    by (simp add: step del: upt_Suc)
  also have "\<dots> = (map (\<lambda>w. Fin (?T w + dayTotal xs w)) [0..<7],
                     map (\<lambda>w. ?C ! w + dayCount xs w) [0..<7])"
    by (rule Cons.IH [OF len nn bound])
  also have "\<dots> = (map (\<lambda>w. Fin (T w + dayTotal (p # xs) w)) [0..<7],
                     map (\<lambda>w. C ! w + dayCount (p # xs) w) [0..<7])"
    using Cons.prems(1) d
    by (auto simp: dayTotal_Cons dayCount_Cons nth_list_update simp del: upt_Suc)
  finally show ?case .
qed

lemma dayTotal_max: "ordinarySeries xs \<Longrightarrow> dayTotal xs w \<le> maxValue"
  unfolding dayTotal_def by (intro ordinary_sum_max ordinarySeries_filter)

lemma ordinary_nonneg: "ordinarySeries xs \<Longrightarrow> \<forall>p\<in>set xs. 0 \<le> quantity p"
  by (auto dest: ordinary_quantity)

lemma dayGroups:
  assumes "ordinarySeries xs"
  shows "foldl addToDay (replicate 7 (Fin 0), replicate 7 0) xs =
           (map (\<lambda>w. Fin (dayTotal xs w)) [0..<7], map (dayCount xs) [0..<7])"
proof -
  have rep: "replicate 7 (Fin 0) = map (\<lambda>w. Fin ((\<lambda>w. 0) w)) [0..<7]"
    by (simp add: list_eq_iff_nth_eq del: upt_Suc)
  have "foldl addToDay (map (\<lambda>w. Fin ((\<lambda>w. 0) w)) [0..<7], replicate 7 0) xs =
     (map (\<lambda>w. Fin ((\<lambda>w. 0) w + dayTotal xs w)) [0..<7],
      map (\<lambda>w. replicate 7 (0::nat) ! w + dayCount xs w) [0..<7])"
    using dayTotal_max [OF assms] ordinary_nonneg [OF assms]
    by (intro foldl_addToDay) simp_all
  then show ?thesis
    unfolding rep by (simp del: upt_Suc)
qed

lemma dayAverageValue_bounds:
  assumes "ordinarySeries xs"
  shows "0 \<le> dayAverageValue xs w" and "dayAverageValue xs w \<le> maxQuantity"
proof -
  let ?ys = "filter (\<lambda>p. getDay (date p) = w) xs"
  have ys: "ordinarySeries ?ys"
    by (rule ordinarySeries_filter [OF assms])
  show "0 \<le> dayAverageValue xs w"
    using mean_bounds(1) [OF ys]
    by (auto simp: dayAverageValue_def dayTotal_def dayCount_def)
  show "dayAverageValue xs w \<le> maxQuantity"
    using mean_bounds(2) [OF ys] maxQuantity_pos
    by (auto simp: dayAverageValue_def dayTotal_def dayCount_def)
qed

lemma dayAverage_Fin:
  assumes "ordinarySeries xs"
  shows "dayAverage (Fin (dayTotal xs w), dayCount xs w) = Fin (dayAverageValue xs w)"
proof (cases "0 < dayCount xs w")
  case True
  have "\<bar>dayAverageValue xs w\<bar> \<le> maxValue"
    using dayAverageValue_bounds [OF assms, of w] maxQuantity_le by linarith
  then show ?thesis
    using True by (simp add: dayAverage_def dayAverageValue_def fromReal_within)
next
  case False
  then show ?thesis
    by (simp add: dayAverage_def dayAverageValue_def)
qed

lemma dayAverages_Fin:
  assumes "ordinarySeries xs"
  shows "map dayAverage (zip (map (\<lambda>w. Fin (dayTotal xs w)) [0..<7]) (map (dayCount xs) [0..<7])) =
           map (\<lambda>w. Fin (dayAverageValue xs w)) [0..<7]"
  by (simp add: list_eq_iff_nth_eq dayAverage_Fin [OF assms] del: upt_Suc)

lemma upt_7: "[0..<7] = [0, 1, 2, 3, 4, 5, 6]"
  by (simp add: upt_rec)

lemma sum_dayAverages_bounds:
  assumes "ordinarySeries xs"
  shows "0 \<le> sum_list (map (dayAverageValue xs) [0..<7])"
    and "sum_list (map (dayAverageValue xs) [0..<7]) \<le> 7 * maxQuantity"
proof -
  show "0 \<le> sum_list (map (dayAverageValue xs) [0..<7])"
    using dayAverageValue_bounds(1) [OF assms] by (intro sum_list_nonneg) auto
  have "sum_list (map (dayAverageValue xs) [0..<7]) \<le> sum_list (map (\<lambda>w. maxQuantity) [0..<7])"
    using dayAverageValue_bounds(2) [OF assms] by (intro sum_list_mono) simp
  also have "\<dots> = 7 * maxQuantity"
    by (simp add: upt_7)
  finally show "sum_list (map (dayAverageValue xs) [0..<7]) \<le> 7 * maxQuantity" .
qed

lemma overallAverage_Fin:
  assumes "ordinarySeries xs"
  shows "ndiv (foldl nadd (Fin 0) (map (\<lambda>w. Fin (dayAverageValue xs w)) [0..<7])) (Fin 7) =
           Fin (overallAverageValue xs)"
proof -
  note b = sum_dayAverages_bounds [OF assms]
  have top: "7 * maxQuantity \<le> maxValue"
    using fourteen_quantity_le maxQuantity_pos by linarith
  have "0 + sum_list (map (dayAverageValue xs) [0..<7]) \<le> maxValue"
    using b(2) top by linarith
  then have sum: "foldl nadd (Fin 0) (map (\<lambda>w. Fin (dayAverageValue xs w)) [0..<7]) =
                    Fin (0 + sum_list (map (dayAverageValue xs) [0..<7]))"
    using dayAverageValue_bounds(1) [OF assms] by (intro foldl_nadd_map_Fin) simp_all
  have "\<bar>sum_list (map (dayAverageValue xs) [0..<7]) / 7\<bar> \<le> maxValue"
    using b top by simp
  then show ?thesis
    unfolding sum by (simp add: overallAverageValue_def fromReal_within)
qed

lemma dayAverage_le_sum:
  assumes "ordinarySeries xs" and "w < 7"
  shows "dayAverageValue xs w \<le> 7 * overallAverageValue xs"
proof -
  have "w \<in> set [0..<7]" using assms(2) by simp
  then have "dayAverageValue xs w \<le> sum_list (map (dayAverageValue xs) [0..<7])"
    using dayAverageValue_bounds(1) [OF assms(1)]
    by (intro member_le_sum_list) auto
  then show ?thesis
    by (simp add: overallAverageValue_def)
qed

lemma seasonalFactorValue_bounds:
  assumes "ordinarySeries xs" and "today < 7"
  shows "0 \<le> seasonalFactorValue today xs" and "seasonalFactorValue today xs \<le> 7"
proof -
  show "0 \<le> seasonalFactorValue today xs"
    using dayAverageValue_bounds(1) [OF assms(1)]
    by (simp add: seasonalFactorValue_def)
  show "seasonalFactorValue today xs \<le> 7"
    using dayAverage_le_sum [OF assms]
    by (simp add: seasonalFactorValue_def pos_divide_le_eq)
qed

lemma seven_le_maxValue: "7 \<le> maxValue"
  by (simp add: maxValue_def)

lemma calculateSeasonalFactor_Fin:
  assumes "ordinarySeries xs"
  shows "fst (calculateSeasonalFactor clk k xs) = Fin (seasonalFactorValue (getDay (clk k)) xs)"
proof (cases "length xs < 14")
  case True
  then show ?thesis
    by (simp add: calculateSeasonalFactor_def seasonalFactorValue_def)
next
  case False
  let ?t = "getDay (clk k)"
  have t: "?t < 7" by (rule getDay_less)
  have nth: "map (\<lambda>w. Fin (dayAverageValue xs w)) [0..<7] ! ?t = Fin (dayAverageValue xs ?t)"
    using t by (simp del: upt_Suc)
  have "\<bar>seasonalFactorValue ?t xs\<bar> \<le> maxValue"
    using seasonalFactorValue_bounds [OF assms t] seven_le_maxValue by linarith
  then have ratio: "0 < overallAverageValue xs \<Longrightarrow>
      fromReal (dayAverageValue xs ?t / overallAverageValue xs) =
        Fin (dayAverageValue xs ?t / overallAverageValue xs)"
    using False by (intro fromReal_within) (simp add: seasonalFactorValue_def)
  show ?thesis
    using False
    unfolding calculateSeasonalFactor_def Let_def dayGroups [OF assms] fst_conv snd_conv
      dayAverages_Fin [OF assms] overallAverage_Fin [OF assms] nth
    by (simp add: seasonalFactorValue_def ratio del: upt_Suc)
qed

lemma calculateSeasonalFactor_ticks:
  "snd (calculateSeasonalFactor clk k xs) = (if length xs < 14 then k else Suc k)"
  by (simp add: calculateSeasonalFactor_def Let_def)

lemma square_quantity_le: "maxQuantity * maxQuantity \<le> maxValue"
  by (simp add: maxQuantity_def maxValue_def)

lemma meanValue_bounds:
  assumes "ordinarySeries xs" and "xs \<noteq> []"
  shows "0 \<le> meanValue xs" and "meanValue xs \<le> maxQuantity"
  using mean_bounds [OF assms] by (simp_all add: meanValue_def)

lemma deviation_square_le:
  assumes "0 \<le> q" "q \<le> b" "0 \<le> m" "m \<le> b"
  shows "(q - m)\<^sup>2 \<le> b * (b::real)"
proof -
  have "\<bar>q - m\<bar> \<le> b" using assms by linarith
  then have "\<bar>q - m\<bar> * \<bar>q - m\<bar> \<le> b * b"
    by (intro mult_mono) simp_all
  then show ?thesis
    by (simp add: power2_eq_square)
qed

lemma sum_bounded_above:
  "\<forall>x\<in>set xs. f x \<le> (b::real) \<Longrightarrow> sum_list (map f xs) \<le> real (length xs) * b"
  by (induction xs) (simp_all add: algebra_simps)

lemma squares_sum_le:
  assumes "ordinarySeries xs" and "xs \<noteq> []"
  shows "sum_list (map (\<lambda>p. (quantity p - meanValue xs)\<^sup>2) xs) \<le> maxValue"
proof -
  have each: "\<forall>p\<in>set xs. (quantity p - meanValue xs)\<^sup>2 \<le> maxQuantity * maxQuantity"
    using ordinary_quantity [OF assms(1)] meanValue_bounds [OF assms]
    by (auto intro!: deviation_square_le)
  have "sum_list (map (\<lambda>p. (quantity p - meanValue xs)\<^sup>2) xs)
          \<le> real (length xs) * (maxQuantity * maxQuantity)"
    by (rule sum_bounded_above [OF each])
  also have "\<dots> \<le> real maxPoints * (maxQuantity * maxQuantity)"
    using assms(1) maxQuantity_pos by (intro mult_right_mono) (simp_all add: ordinarySeries_def)
  also have "\<dots> \<le> maxValue"
    by (rule points_square_le)
  finally show ?thesis .
qed

lemma squares_sum_Fin:
  assumes "ordinarySeries xs" and "xs \<noteq> []"
  shows "foldl (\<lambda>sum p. nadd sum (Math_pow2 (nsub (Fin (quantity p)) (Fin (meanValue xs)))))
           (Fin 0) xs = Fin (sum_list (map (\<lambda>p. (quantity p - meanValue xs)\<^sup>2) xs))"
proof -
  have sq: "Math_pow2 (nsub (Fin (quantity p)) (Fin (meanValue xs))) =
                Fin ((quantity p - meanValue xs)\<^sup>2)" if "p \<in> set xs" for p
  proof -
    note q = ordinary_quantity [OF assms(1) that]
    note m = meanValue_bounds [OF assms]
    have "\<bar>quantity p - meanValue xs\<bar> \<le> maxValue"
      using q m maxQuantity_le by linarith
    moreover have "\<bar>(quantity p - meanValue xs)\<^sup>2\<bar> \<le> maxValue"
      using deviation_square_le [of "quantity p" maxQuantity "meanValue xs"] q m
        square_quantity_le by simp
    ultimately show ?thesis
      by (simp add: nsub_Fin fromReal_within)
  qed
  have "foldl (\<lambda>sum p. nadd sum (Math_pow2 (nsub (Fin (quantity p)) (Fin (meanValue xs)))))
           (Fin 0) xs = Fin (0 + sum_list (map (\<lambda>p. (quantity p - meanValue xs)\<^sup>2) xs))"
    using sq squares_sum_le [OF assms] by (intro foldl_nadd_Fin) simp_all
  then show ?thesis by simp
qed

lemma Math_sqrt_nonneg: "0 \<le> a \<Longrightarrow> Math_sqrt (Fin a) = Fin (sqrt a)"
  by simp

lemma one_le_maxValue: "1 \<le> maxValue"
  using seven_le_maxValue by linarith

text \<open>The clamped confidence of a coefficient of variation, also when it overflowed.\<close>

lemma confidence_of_variation:
  assumes "0 \<le> cv"
  shows "Math_max (Fin 0.6)
           (Math_min (Fin 0.95) (nsub (Fin 0.95) (nmul (fromReal cv) (Fin 0.35)))) =
         Fin (clamp (0.95 - cv * 0.35) 0.6 0.95)"
proof (cases "cv \<le> maxValue")
  case True
  then have cv: "fromReal cv = Fin cv"
    using assms by (intro fromReal_within) simp
  have m: "fromReal (cv * 0.35) = Fin (cv * 0.35)"
    using True assms by (intro fromReal_within) simp
  have d: "fromReal (0.95 - cv * 0.35) = Fin (0.95 - cv * 0.35)"
    using True assms one_le_maxValue by (intro fromReal_within) simp
  show ?thesis
    by (simp only: cv nmul.simps m nsub_Fin d Math_min_Fin Math_max_Fin clamp_def)
next
  case False
  then have cv: "fromReal cv = PosInf"
    by (simp add: fromReal_def)
  have "7 < cv"
    using False seven_le_maxValue by linarith
  then have "clamp (0.95 - cv * 0.35) 0.6 0.95 = 0.6"
    by (simp add: clamp_def)
  then show ?thesis
    by (simp add: cv nsub_def Math_min_def Math_max_def)
qed

lemma calculateConfidence_large:
  assumes "ordinarySeries xs" and "30 \<le> length xs"
  shows "calculateConfidence xs = Fin (clamp (0.95 - variationSpec xs * 0.35) 0.6 0.95)"
proof -
  have ne: "xs \<noteq> []" using assms(2) by auto
  have n: "real (length xs) \<noteq> 0" "1 \<le> real (length xs)" using assms(2) by auto
  note m = meanValue_bounds [OF assms(1) ne]
  let ?ss = "sum_list (map (\<lambda>p. (quantity p - meanValue xs)\<^sup>2) xs)"
  have ss: "0 \<le> ?ss"
    by (intro sum_list_nonneg) auto
  have avg: "ndiv (sumQuantity xs) (Fin (real (length xs))) = Fin (meanValue xs)"
    using mean_Fin [OF assms(1) ne] by (simp add: meanValue_def)
  have "?ss / real (length xs) \<le> ?ss / 1"
    using ss n(2) by (intro divide_left_mono) auto
  then have "\<bar>?ss / real (length xs)\<bar> \<le> maxValue"
    using ss squares_sum_le [OF assms(1) ne] by simp
  then have var: "ndiv (Fin ?ss) (Fin (real (length xs))) = Fin (?ss / real (length xs))"
    using n(1) by (simp add: fromReal_within)
  have var0: "0 \<le> ?ss / real (length xs)"
    using ss by (intro divide_nonneg_nonneg) simp_all
  then have sd: "Math_sqrt (Fin (?ss / real (length xs))) = Fin (stddevValue xs)"
    unfolding stddevValue_def by (rule Math_sqrt_nonneg)
  have sd0: "0 \<le> stddevValue xs"
    using var0 by (simp add: stddevValue_def)
  have cv: "(if ngt (Fin (meanValue xs)) (Fin 0)
             then ndiv (Fin (stddevValue xs)) (Fin (meanValue xs)) else Fin 1) =
            fromReal (variationSpec xs)"
    using m(1) one_le_maxValue by (auto simp: variationSpec_def fromReal_within)
  have v0: "0 \<le> variationSpec xs"
    using m(1) sd0 by (simp add: variationSpec_def)
  have c: "\<not> length xs = 0" "\<not> length xs < 7" "\<not> length xs < 30"
    using assms(2) by auto
  have "calculateConfidence xs =
      Math_max (Fin 0.6) (Math_min (Fin 0.95)
        (nsub (Fin 0.95) (nmul (fromReal (variationSpec xs)) (Fin 0.35))))"
    unfolding calculateConfidence_def Let_def
    by (simp only: c if_False avg squares_sum_Fin [OF assms(1) ne] var sd cv)
  then show ?thesis
    by (simp only: confidence_of_variation [OF v0])
qed

lemma clamp_bounds: "lo \<le> hi \<Longrightarrow> lo \<le> clamp x lo hi \<and> clamp x lo hi \<le> hi"
  by (simp add: clamp_def)

lemma calculateConfidence_bounds:
  assumes "ordinarySeries xs"
  shows "\<exists>c. calculateConfidence xs = Fin c \<and> 0.1 \<le> c \<and> c \<le> 0.95"
proof -
  consider "length xs = 0" | "1 \<le> length xs" "length xs < 7"
    | "7 \<le> length xs" "length xs < 30" | "30 \<le> length xs"
    by linarith
  then show ?thesis
  proof cases
    case 1
    then show ?thesis by (intro exI [of _ "0.1"]) (simp add: calculateConfidence_def)
  next
    case 2
    then show ?thesis by (intro exI [of _ "0.4"]) (auto simp: calculateConfidence_def)
  next
    case 3
    then show ?thesis by (intro exI [of _ "0.6"]) (auto simp: calculateConfidence_def)
  next
    case 4
    have "(0.6::real) \<le> 0.95" by simp
    from clamp_bounds [OF this, of "0.95 - variationSpec xs * 0.35"] 4
    show ?thesis by (simp add: calculateConfidence_large [OF assms])
  qed
qed


lemma length_constantSeries: "length (constantSeries t n q) = n"
  by (simp add: constantSeries_def)

lemma map_quantity_constantSeries: "map quantity (constantSeries t n q) = replicate n q"
  by (simp add: constantSeries_def map_replicate_const comp_def)

lemma constantSeries_Nil_iff: "constantSeries t n q = [] \<longleftrightarrow> n = 0"
  by (simp add: constantSeries_def)

lemma ordinarySeries_constantSeries:
  "n \<le> maxPoints \<Longrightarrow> 0 \<le> q \<Longrightarrow> q \<le> maxQuantity \<Longrightarrow> ordinarySeries (constantSeries t n q)"
  by (simp add: ordinarySeries_def constantSeries_def list_all_iff)

lemma meanValue_constantSeries: "0 < n \<Longrightarrow> meanValue (constantSeries t n q) = q"
  by (simp add: meanValue_def map_quantity_constantSeries length_constantSeries sum_list_replicate)

lemma stddevValue_constantSeries: "0 < n \<Longrightarrow> stddevValue (constantSeries t n q) = 0"
proof -
  assume n: "0 < n"
  have "map (\<lambda>p. (quantity p - q)\<^sup>2) (constantSeries t n q) = replicate n 0"
    by (simp add: constantSeries_def map_replicate_const comp_def)
  then show ?thesis
    by (simp add: stddevValue_def meanValue_constantSeries [OF n] sum_list_replicate)
qed

lemma calculateConfidence_constantSeries:
  assumes "30 \<le> n" "n \<le> maxPoints" "0 < q" "q \<le> maxQuantity"
  shows "calculateConfidence (constantSeries t n q) = Fin 0.95"
proof -
  have o: "ordinarySeries (constantSeries t n q)"
    using assms by (intro ordinarySeries_constantSeries) simp_all
  show ?thesis
    using assms(1,3)
    by (simp add: calculateConfidence_large [OF o] length_constantSeries variationSpec_def
        meanValue_constantSeries stddevValue_constantSeries clamp_def)
qed










lemma trendFactor_Fin: "trendFactor tr = Fin (trendFactorValue tr)"
  by (simp add: trendFactor_def trendFactorValue_def)

lemma trendFactorValue_bounds: "0 < trendFactorValue tr" "trendFactorValue tr \<le> 2"
  by (simp_all add: trendFactorValue_def)

lemma ordinarySeries_nonneg: "ordinarySeries xs \<Longrightarrow> nonnegQuantities xs"
  by (simp add: ordinarySeries_def nonnegQuantities_def list_all_iff)

lemma calculateSeasonalFactor_eq:
  assumes "ordinarySeries xs"
  shows "calculateSeasonalFactor clk k xs =
     (Fin (seasonalFactorValue (getDay (clk k)) xs), seasonalTicks k xs)"
  by (rule prod_eqI)
    (simp_all add: calculateSeasonalFactor_Fin [OF assms] calculateSeasonalFactor_ticks
      seasonalTicks_def)

lemma seasonal_product_bounds:
  assumes "ordinarySeries xs" and "today < 7"
  shows "0 \<le> movingAverageValue xs * seasonalFactorValue today xs"
    and "movingAverageValue xs * seasonalFactorValue today xs \<le> 7 * maxQuantity"
proof -
  note m = movingAverageValue_bounds [OF assms(1)]
  note s = seasonalFactorValue_bounds [OF assms]
  show "0 \<le> movingAverageValue xs * seasonalFactorValue today xs"
    using m(1) s(1) by simp
  have "movingAverageValue xs * seasonalFactorValue today xs \<le> maxQuantity * 7"
    using m s by (intro mult_mono) simp_all
  then show "movingAverageValue xs * seasonalFactorValue today xs \<le> 7 * maxQuantity"
    by (simp add: mult.commute)
qed

lemma adjustedSalesValue_bounds:
  assumes "ordinarySeries xs" and "today < 7"
  shows "0 \<le> adjustedSalesValue today xs" and "adjustedSalesValue today xs \<le> maxValue"
proof -
  note p = seasonal_product_bounds [OF assms]
  note t = trendFactorValue_bounds [of "detectTrend xs"]
  show "0 \<le> adjustedSalesValue today xs"
    using p(1) t(1) by (simp add: adjustedSalesValue_def)
  have "movingAverageValue xs * seasonalFactorValue today xs * trendFactorValue (detectTrend xs)
          \<le> (7 * maxQuantity) * 2"
    using p t maxQuantity_pos by (intro mult_mono [of "_ * _"]) simp_all
  then show "adjustedSalesValue today xs \<le> maxValue"
    using fourteen_quantity_le by (simp add: adjustedSalesValue_def)
qed

lemma adjusted_Fin:
  assumes "ordinarySeries xs"
  shows "nmul (nmul (calculateMovingAverage xs 7) (Fin (seasonalFactorValue (getDay (clk k)) xs)))
           (trendFactor (detectTrend xs)) = Fin (adjustedSalesValue (getDay (clk k)) xs)"
proof -
  let ?t = "getDay (clk k)"
  have t: "?t < 7" by (rule getDay_less)
  note p = seasonal_product_bounds [OF assms t]
  have "7 * maxQuantity \<le> maxValue"
    using fourteen_quantity_le maxQuantity_pos by linarith
  then have "\<bar>movingAverageValue xs * seasonalFactorValue ?t xs\<bar> \<le> maxValue"
    using p by linarith
  then have one: "fromReal (movingAverageValue xs * seasonalFactorValue ?t xs) =
                    Fin (movingAverageValue xs * seasonalFactorValue ?t xs)"
    by (rule fromReal_within)
  have "\<bar>adjustedSalesValue ?t xs\<bar> \<le> maxValue"
    using adjustedSalesValue_bounds [OF assms t] by linarith
  then have two: "fromReal (movingAverageValue xs * seasonalFactorValue ?t xs
                     * trendFactorValue (detectTrend xs)) = Fin (adjustedSalesValue ?t xs)"
    unfolding adjustedSalesValue_def by (rule fromReal_within)
  show ?thesis
    by (simp only: calculateMovingAverage_Fin [OF assms] trendFactor_Fin nmul.simps one two)
qed

lemma predictStockNeeds_eq:
  assumes "ordinarySeries xs"
  shows "predictStockNeeds clk k xs currentStock leadTimeDays safetyStockDays =
     (\<lparr> predictedRunoutDate =
          addDays (clk (seasonalTicks k xs))
            (Math_floor (stockoutDays (getDay (clk k)) xs currentStock)),
        suggestedReorderQuantity =
          Math_max (Math_ceil (fromReal (adjustedSalesValue (getDay (clk k)) xs
                                           * (leadTimeDays + safetyStockDays)))) (Fin 10),
        confidence = calculateConfidence xs,
        dailyAverageSales = Fin (adjustedSalesValue (getDay (clk k)) xs),
        seasonalFactor = Fin (seasonalFactorValue (getDay (clk k)) xs) \<rparr>,
      Suc (seasonalTicks k xs))"
proof -
  let ?a = "adjustedSalesValue (getDay (clk k)) xs"
  have days: "(if ngt (Fin ?a) (Fin 0) then ndiv (Fin currentStock) (Fin ?a) else Fin 9999) =
                stockoutDays (getDay (clk k)) xs currentStock"
    by (simp add: stockoutDays_def)
  show ?thesis
    unfolding predictStockNeeds_def Let_def calculateSeasonalFactor_eq [OF assms] fst_conv snd_conv
      adjusted_Fin [OF assms] days
    by simp
qed




text \<open>
  On such a series every numeric field of the result is a number >= 0 and none is NaN:
  the NaN or infinity that \<open>detectTrend\<close> may compute only selects the trend.
\<close>

lemma predictStockNeeds_fields_finite:
  assumes "ordinarySeries xs"
  shows "\<exists>c a s.
           confidence
             (fst (predictStockNeeds clk k xs currentStock leadTimeDays safetyStockDays)) = Fin c
         \<and> dailyAverageSales
             (fst (predictStockNeeds clk k xs currentStock leadTimeDays safetyStockDays)) = Fin a
         \<and> seasonalFactor
             (fst (predictStockNeeds clk k xs currentStock leadTimeDays safetyStockDays)) = Fin s
         \<and> 0.1 \<le> c \<and> c \<le> 0.95 \<and> 0 \<le> a \<and> 0 \<le> s"
proof -
  obtain c where "calculateConfidence xs = Fin c" "0.1 \<le> c" "c \<le> 0.95"
    using calculateConfidence_bounds [OF assms] by blast
  then show ?thesis
    using adjustedSalesValue_bounds(1) [OF assms getDay_less]
      seasonalFactorValue_bounds(1) [OF assms getDay_less]
    by (simp add: predictStockNeeds_eq [OF assms])
qed









lemma ordinarySeries_weeklySeries:
  "n \<le> maxPoints \<Longrightarrow> 0 \<le> q \<Longrightarrow> q \<le> maxQuantity \<Longrightarrow> ordinarySeries (weeklySeries n q)"
  by (simp add: ordinarySeries_def weeklySeries_def list_all_iff)

lemma ordinary_small:
  "ordinarySeries (weeklySeries 14 1)" "ordinarySeries (constantSeries t 30 10)"
  "ordinarySeries (constantSeries t 1 10)" "ordinarySeries (constantSeries t 7 0)"
  "ordinarySeries (constantSeries t 3 0)" "ordinarySeries (constantSeries t 4 1)"
  by (simp_all add: ordinarySeries_weeklySeries ordinarySeries_constantSeries maxPoints_def
      maxQuantity_def)



lemma nonnegQuantities_constantSeries: "0 \<le> q \<Longrightarrow> nonnegQuantities (constantSeries t n q)"
  by (simp add: nonnegQuantities_def constantSeries_def list_all_iff)

lemma sumQuantity_constantSeries:
  assumes "ordinarySeries (constantSeries t n q)"
  shows "sumQuantity (take m (constantSeries t n q)) = Fin (real (min m n) * q)"
    and "sumQuantity (drop m (constantSeries t n q)) = Fin (real (n - m) * q)"
proof -
  show "sumQuantity (take m (constantSeries t n q)) = Fin (real (min m n) * q)"
    unfolding sumQuantity_Fin [OF ordinarySeries_take [OF assms]]
    by (simp add: map_quantity_constantSeries sum_list_replicate min.commute flip: take_map)
  show "sumQuantity (drop m (constantSeries t n q)) = Fin (real (n - m) * q)"
    unfolding sumQuantity_Fin [OF ordinarySeries_drop [OF assms]]
    by (simp add: map_quantity_constantSeries sum_list_replicate flip: drop_map)
qed

lemma fromReal_zero: "fromReal 0 = Fin 0"
  using maxValue_pos by (simp add: fromReal_def)

text \<open>
  Claim C1 on seven days without sales, a series with quantities >= 0: both half averages
  are 0 and \<open>detectTrend\<close> divides 0 by 0 with no guard, so its \<open>change\<close> is NaN.  The
  comparisons with NaN are false and the trend is "stable".
\<close>

theorem detectTrend_unguarded_division:
  "nonnegQuantities (constantSeries 0 7 0) \<and>
   trendChange (constantSeries 0 7 0) = NaN \<and>
   detectTrend (constantSeries 0 7 0) = Stable"
proof -
  have "trendChange (constantSeries 0 7 0) = NaN"
    by (simp add: trendChange_def Let_def sumQuantity_constantSeries [OF ordinary_small(4)]
        length_constantSeries nsub_Fin constantSeries_Nil_iff fromReal_zero)
  then show ?thesis
    by (simp add: detectTrend_def length_constantSeries nonnegQuantities_constantSeries nlt_def)
qed

text \<open>With sales only in the second half the unguarded quotient is +Infinity.\<close>

lemma trendChange_infinite:
  "trendChange (constantSeries 0 3 0 @ constantSeries 0 4 1) = PosInf \<and>
   detectTrend (constantSeries 0 3 0 @ constantSeries 0 4 1) = Increasing"
proof -
  have one: "fromReal 1 = Fin 1"
    using one_le_maxValue by (intro fromReal_within) simp
  have "trendChange (constantSeries 0 3 0 @ constantSeries 0 4 1) = PosInf"
    by (simp add: trendChange_def Let_def length_constantSeries nsub_Fin
        sumQuantity_Fin [OF ordinary_small(5)] sumQuantity_Fin [OF ordinary_small(6)]
        map_quantity_constantSeries sum_list_replicate constantSeries_Nil_iff fromReal_zero one)
  then show ?thesis
    by (simp add: detectTrend_def length_constantSeries)
qed


lemma sum_quantity_filter_const:
  "list_all (\<lambda>p. quantity p = q) xs \<Longrightarrow>
   sum_list (map quantity (filter P xs)) = real (length (filter P xs)) * q"
  by (induction xs) (simp_all add: algebra_simps)

lemma list_all_constantSeries: "list_all (\<lambda>p. quantity p = q) (constantSeries t n q)"
  by (simp add: constantSeries_def list_all_iff)

lemma dayTotal_constantSeries:
  "dayTotal (constantSeries t n q) w = real (dayCount (constantSeries t n q) w) * q"
  unfolding dayTotal_def dayCount_def
  by (rule sum_quantity_filter_const [OF list_all_constantSeries])

lemma getDay_shift: "getDay (t + int i * msPerDay) = nat ((t div msPerDay + int i + 4) mod 7)"
proof -
  have "(t + int i * msPerDay) div msPerDay = t div msPerDay + int i"
    by (simp add: msPerDay_def)
  then show ?thesis
    by (simp add: getDay_def)
qed

lemma weekday_reached:
  assumes "w < 7"
  shows "\<exists>i<7. nat ((d + int i + 4) mod 7) = w"
proof -
  define i where "i = nat ((int w - d - 4) mod 7)"
  have i7: "i < 7" by (simp add: i_def nat_less_iff)
  have "int i = (int w - d - 4) mod 7"
    by (simp add: i_def)
  then have "(d + int i + 4) mod 7 = (d + 4 + (int w - d - 4) mod 7) mod 7"
    by (simp add: ac_simps)
  also have "\<dots> = (d + 4 + (int w - d - 4)) mod 7"
    by (rule mod_add_right_eq)
  also have "\<dots> = int w"
    using assms by simp
  finally have "nat ((d + int i + 4) mod 7) = w"
    by simp
  with i7 show ?thesis by blast
qed

lemma dayCount_constantSeries_pos:
  assumes "w < 7" "7 \<le> n"
  shows "0 < dayCount (constantSeries t n q) w"
proof -
  obtain i where i: "i < 7" "nat ((t div msPerDay + int i + 4) mod 7) = w"
    using weekday_reached [OF assms(1)] by blast
  have "\<lparr> date = t + int i * msPerDay, quantity = q \<rparr> \<in> set (constantSeries t n q)"
    using i(1) assms(2) by (auto simp: constantSeries_def)
  moreover have "getDay (date \<lparr> date = t + int i * msPerDay, quantity = q \<rparr>) = w"
    using i(2) by (simp add: getDay_shift)
  ultimately have "filter (\<lambda>p. getDay (date p) = w) (constantSeries t n q) \<noteq> []"
    unfolding filter_empty_conv by blast
  then show ?thesis
    unfolding dayCount_def by simp
qed

lemma dayAverageValue_constantSeries:
  "w < 7 \<Longrightarrow> 7 \<le> n \<Longrightarrow> dayAverageValue (constantSeries t n q) w = q"
  using dayCount_constantSeries_pos [of w n t q]
  by (simp add: dayAverageValue_def dayTotal_constantSeries)

lemma overallAverageValue_constantSeries:
  "7 \<le> n \<Longrightarrow> overallAverageValue (constantSeries t n q) = q"
  by (simp add: overallAverageValue_def upt_7 dayAverageValue_constantSeries)

lemma seasonalFactorValue_constantSeries:
  "14 \<le> n \<Longrightarrow> 0 < q \<Longrightarrow> seasonalFactorValue (getDay now) (constantSeries t n q) = 1"
  using getDay_less [of now]
  by (simp add: seasonalFactorValue_def length_constantSeries
      dayAverageValue_constantSeries overallAverageValue_constantSeries)

lemma movingAverageValue_constantSeries:
  "0 < n \<Longrightarrow> movingAverageValue (constantSeries t n q) = q"
  by (simp add: movingAverageValue_def constantSeries_Nil_iff sliceLast_def
      map_quantity_constantSeries length_constantSeries sum_list_replicate flip: drop_map)

lemma fromReal_ten: "fromReal 10 = Fin 10"
  using seven_le_maxValue maxValue_lower by (intro fromReal_within) (simp add: maxValue_def)

lemma detectTrend_constantSeries_30: "detectTrend (constantSeries t 30 10) = Stable"
proof -
  have "trendChange (constantSeries t 30 10) = Fin 0"
    by (simp add: trendChange_def Let_def sumQuantity_constantSeries [OF ordinary_small(2)]
        length_constantSeries nsub_Fin constantSeries_Nil_iff fromReal_ten fromReal_zero)
  then show ?thesis
    by (simp add: detectTrend_def length_constantSeries nlt_def)
qed

lemma adjustedSalesValue_constantSeries_30:
  "adjustedSalesValue (getDay now) (constantSeries t 30 10) = 10"
  by (simp add: adjustedSalesValue_def movingAverageValue_constantSeries
      seasonalFactorValue_constantSeries detectTrend_constantSeries_30 trendFactorValue_def)

lemma adjustedSalesValue_empty: "adjustedSalesValue today [] = 0"
  by (simp add: adjustedSalesValue_def movingAverageValue_def)

lemma predictSingleProduct_found:
  assumes found: "products_single sb userId productId =
                    \<lparr> resp_data = Some product, resp_error = None \<rparr>"
    and hist: "getSalesHistory sb clk k userId productId 30 = (Inr xs, k1)"
  shows "predictSingleProduct sb clk k userId productId daysAhead =
     (let reorderRule = resp_data (reorder_rules_single sb userId productId);
          leadTimeDays = ruleLeadTimeDays reorderRule;
          safetyStockDays = ruleSafetyStockDays reorderRule;
          fc = predictStockNeeds clk k1 xs (p_quantity product) leadTimeDays safetyStockDays
      in case predictedRunoutDate (fst fc) of
           InvalidDate \<Rightarrow> (Inl RangeError, Suc (snd fc))
         | Date runout \<Rightarrow>
             (Inr \<lparr> product_id = p_id product,
                    product_name = p_name product,
                    current_stock = p_quantity product,
                    predicted_runout_date = runout,
                    days_until_runout = max 0 ((runout - clk (snd fc)) div msPerDay),
                    suggested_reorder_quantity = suggestedReorderQuantity (fst fc),
                    confidence_score = confidence (fst fc),
                    urgency = urgencyOf (max 0 ((runout - clk (snd fc)) div msPerDay)),
                    should_reorder =
                      (of_int (max 0 ((runout - clk (snd fc)) div msPerDay)) \<le> leadTimeDays) \<rparr>,
              Suc (snd fc)))"
  unfolding predictSingleProduct_def Let_def found hist
  by (simp split: jsdate.split)

text \<open>The same on a series in the range where no sum overflows.\<close>

lemma predictSingleProduct_ordinary:
  assumes found: "products_single sb userId productId =
                    \<lparr> resp_data = Some product, resp_error = None \<rparr>"
    and hist: "getSalesHistory sb clk k userId productId 30 = (Inr xs, k1)"
    and ord: "ordinarySeries xs"
  shows "predictSingleProduct sb clk k userId productId daysAhead =
     (let reorderRule = resp_data (reorder_rules_single sb userId productId);
          leadTimeDays = ruleLeadTimeDays reorderRule;
          safetyStockDays = ruleSafetyStockDays reorderRule;
          k2 = seasonalTicks k1 xs
      in case addDays (clk k2)
                (Math_floor (stockoutDays (getDay (clk k1)) xs (p_quantity product))) of
           InvalidDate \<Rightarrow> (Inl RangeError, Suc (Suc k2))
         | Date runout \<Rightarrow>
             (Inr \<lparr> product_id = p_id product,
                    product_name = p_name product,
                    current_stock = p_quantity product,
                    predicted_runout_date = runout,
                    days_until_runout = max 0 ((runout - clk (Suc k2)) div msPerDay),
                    suggested_reorder_quantity =
                      Math_max (Math_ceil (fromReal (adjustedSalesValue (getDay (clk k1)) xs
                                          * (leadTimeDays + safetyStockDays)))) (Fin 10),
                    confidence_score = calculateConfidence xs,
                    urgency = urgencyOf (max 0 ((runout - clk (Suc k2)) div msPerDay)),
                    should_reorder =
                      (of_int (max 0 ((runout - clk (Suc k2)) div msPerDay)) \<le> leadTimeDays) \<rparr>,
              Suc (Suc k2)))"
  unfolding predictSingleProduct_found [OF found hist] Let_def predictStockNeeds_eq [OF ord]
  by (simp split: jsdate.split)

lemma predictSingleProduct_not_found:
  assumes "resp_error (products_single sb userId productId) \<noteq> None
           \<or> resp_data (products_single sb userId productId) = None"
  shows "predictSingleProduct sb clk k userId productId daysAhead = (Inl ProductNotFound, k)"
  using assms
  by (auto simp: predictSingleProduct_def Let_def split: option.splits)

lemma dailyRows_points:
  "map (\<lambda>row. \<lparr> date = row_date row, quantity = quantity_sold row \<rparr>) (dailyRows t n q) =
     constantSeries t n q"
  by (simp add: dailyRows_def constantSeries_def)

lemma dailyRows_Nil_iff: "dailyRows t n q = [] \<longleftrightarrow> n = 0"
  by (simp add: dailyRows_def)

lemma getSalesHistory_valid:
  assumes "\<bar>clk k - days * msPerDay\<bar> \<le> maxTime"
  shows "getSalesHistory sb clk k userId productId days =
     (Inr (let fromInvoices =
                 map (\<lambda>e. \<lparr> date = fst e * msPerDay, quantity = snd e \<rparr>)
                   (foldl addInvoiceItem []
                      (case resp_data (invoice_items_paid sb userId productId
                                         (clk k - days * msPerDay)) of
                         Some items \<Rightarrow> items | None \<Rightarrow> []))
           in case resp_data (sales_history_daily sb userId productId
                                ((clk k - days * msPerDay) div msPerDay)) of
                Some rows \<Rightarrow>
                  if 0 < length rows
                  then map (\<lambda>row. \<lparr> date = row_date row, quantity = quantity_sold row \<rparr>) rows
                  else fromInvoices
              | None \<Rightarrow> fromInvoices), Suc k)"
  using assms by (simp add: getSalesHistory_def Let_def)

lemma getSalesHistory_tableClient:
  assumes "\<bar>c - 30 * msPerDay\<bar> \<le> maxTime"
  shows "getSalesHistory (tableClient found listed sales rules) (pinnedClock c) k userId productId 30
           = (Inr (case map_of sales productId of
                     Some rows \<Rightarrow>
                       map (\<lambda>row. \<lparr> date = row_date row, quantity = quantity_sold row \<rparr>) rows
                   | None \<Rightarrow> []), Suc k)"
proof -
  have v: "\<bar>pinnedClock c k - 30 * msPerDay\<bar> \<le> maxTime"
    using assms by (simp add: pinnedClock_def)
  show ?thesis
    unfolding getSalesHistory_valid [where clk = "pinnedClock c" and days = 30, OF v]
    by (auto simp: tableClient_def Let_def split: option.splits)
qed

lemma valid_times:
  "\<bar>0 - 30 * msPerDay\<bar> \<le> maxTime" "\<bar>0 + 9999 * msPerDay\<bar> \<le> maxTime"
  "\<bar>0 + 5 * msPerDay\<bar> \<le> maxTime"
  by (simp_all add: msPerDay_def maxTime_def)

lemma ordinarySeries_Nil: "ordinarySeries []"
  by (simp add: ordinarySeries_def)

lemma stockoutDays_empty: "stockoutDays today [] currentStock = Fin 9999"
  by (simp add: stockoutDays_def adjustedSalesValue_empty)

text \<open>
  Claim C7: for a product that is found, whose sales series is empty and whose lead time is
  the default 7 days, with the clock pinned between the runout date and the comparison
  (and the runout date in the range of dates): the forecast has confidence 0.1, daily
  average sales 0, seasonal factor 1, 9999 days until runout, urgency low, and no reorder.
\<close>

theorem empty_series_forecast:
  assumes found: "products_single sb userId productId =
                    \<lparr> resp_data = Some product, resp_error = None \<rparr>"
    and hist: "getSalesHistory sb clk k userId productId 30 = (Inr [], k1)"
    and lead: "ruleLeadTimeDays (resp_data (reorder_rules_single sb userId productId)) = 7"
    and pinned: "clk (Suc k1) = clk k1"
    and valid: "\<bar>clk k1 + 9999 * msPerDay\<bar> \<le> maxTime"
  shows "predictSingleProduct sb clk k userId productId daysAhead =
           (Inr \<lparr> product_id = p_id product,
                  product_name = p_name product,
                  current_stock = p_quantity product,
                  predicted_runout_date = clk k1 + 9999 * msPerDay,
                  days_until_runout = 9999,
                  suggested_reorder_quantity = Fin 10,
                  confidence_score = Fin 0.1,
                  urgency = Low,
                  should_reorder = False \<rparr>, Suc (Suc k1))
       \<and> confidence (fst (predictStockNeeds clk k1 [] (p_quantity product) 7 safetyStockDays))
           = Fin 0.1
       \<and> dailyAverageSales (fst (predictStockNeeds clk k1 [] (p_quantity product) 7 safetyStockDays))
           = Fin 0
       \<and> seasonalFactor (fst (predictStockNeeds clk k1 [] (p_quantity product) 7 safetyStockDays))
           = Fin 1"
proof -
  have days: "(clk k1 + 9999 * msPerDay - clk k1) div msPerDay = 9999"
    by (simp add: msPerDay_def)
  have nz: "msPerDay \<noteq> 0"
    by (simp add: msPerDay_def)
  have "predictSingleProduct sb clk k userId productId daysAhead =
           (Inr \<lparr> product_id = p_id product,
                  product_name = p_name product,
                  current_stock = p_quantity product,
                  predicted_runout_date = clk k1 + 9999 * msPerDay,
                  days_until_runout = 9999,
                  suggested_reorder_quantity = Fin 10,
                  confidence_score = Fin 0.1,
                  urgency = Low,
                  should_reorder = False \<rparr>, Suc (Suc k1))"
    unfolding predictSingleProduct_ordinary [OF found hist ordinarySeries_Nil] Let_def lead
      stockoutDays_empty
    using valid
    by (simp add: seasonalTicks_def adjustedSalesValue_empty pinned days fromReal_zero
        nz calculateConfidence_def urgencyOf_def Math_max_Fin)
  moreover have "confidence (fst (predictStockNeeds clk k1 [] (p_quantity product) 7 safetyStockDays))
           = Fin 0.1"
    by (simp add: predictStockNeeds_eq [OF ordinarySeries_Nil] calculateConfidence_def)
  moreover have "dailyAverageSales
           (fst (predictStockNeeds clk k1 [] (p_quantity product) 7 safetyStockDays)) = Fin 0"
    by (simp add: predictStockNeeds_eq [OF ordinarySeries_Nil] adjustedSalesValue_empty)
  moreover have "seasonalFactor
           (fst (predictStockNeeds clk k1 [] (p_quantity product) 7 safetyStockDays)) = Fin 1"
    by (simp add: predictStockNeeds_eq [OF ordinarySeries_Nil] seasonalFactorValue_def)
  ultimately show ?thesis by simp
qed

text \<open>Scenario B on the table client: no sales rows, stock 20, no rule, clock pinned.\<close>

theorem empty_series_forecast_witness:
  "predictSingleProduct
     (tableClient [(''p1'', rice\<lparr>p_quantity := 20\<rparr>)] [] [] []) (pinnedClock 0) 0 ''u1'' ''p1'' 30 =
     (Inr \<lparr> product_id = ''p1'',
            product_name = ''Rice'',
            current_stock = 20,
            predicted_runout_date = 9999 * msPerDay,
            days_until_runout = 9999,
            suggested_reorder_quantity = Fin 10,
            confidence_score = Fin 0.1,
            urgency = Low,
            should_reorder = False \<rparr>, 3)"
proof -
  let ?sb = "tableClient [(''p1'', rice\<lparr>p_quantity := 20\<rparr>)] [] [] []"
  have found: "products_single ?sb ''u1'' ''p1'' =
                 \<lparr> resp_data = Some (rice\<lparr>p_quantity := 20\<rparr>), resp_error = None \<rparr>"
    by (simp add: tableClient_def)
  have hist: "getSalesHistory ?sb (pinnedClock 0) 0 ''u1'' ''p1'' 30 = (Inr [], 1)"
    by (simp add: getSalesHistory_tableClient [OF valid_times(1)])
  have lead: "ruleLeadTimeDays (resp_data (reorder_rules_single ?sb ''u1'' ''p1'')) = 7"
    by (simp add: tableClient_def ruleLeadTimeDays_def)
  have pinned: "pinnedClock 0 (Suc 1) = pinnedClock 0 1"
    by (simp add: pinnedClock_def)
  have valid: "\<bar>pinnedClock 0 1 + 9999 * msPerDay\<bar> \<le> maxTime"
    using valid_times by (simp add: pinnedClock_def)
  show ?thesis
    using empty_series_forecast [OF found hist lead pinned valid, of 30 3]
    by (simp add: rice_def pinnedClock_def numeral_3_eq_3)
qed

lemma calculateConfidence_30: "calculateConfidence (constantSeries t 30 10) = Fin 0.95"
  by (rule calculateConfidence_constantSeries) (simp_all add: maxPoints_def maxQuantity_def)


lemma fromReal_days:
  assumes "\<lfloor>r\<rfloor> = n" "0 \<le> n" "n \<le> 10000"
  shows "fromReal r = Fin r"
proof -
  have "0 \<le> r" "r < 10001"
    using assms by linarith+
  then have "\<bar>r\<bar> \<le> 10 ^ 308"
    by simp
  then show ?thesis
    by (rule fromReal_small)
qed

lemma msPerDay_nonzero: "msPerDay \<noteq> 0"
  by (simp add: msPerDay_def)

text \<open>
  Claim C8: for a product that is found with stock 50, whose sales series is 30 consecutive
  days of quantity 10, with lead time 7 and 3 safety-stock days, the clock pinned between
  the runout date and the comparison (and the runout date in the range of dates): daily
  average sales 10, seasonal factor 1, trend stable, 5 days until runout, reorder
  quantity 100, urgency high, and a reorder.
\<close>

theorem constant_series_forecast:
  assumes found: "products_single sb userId productId =
                    \<lparr> resp_data = Some product, resp_error = None \<rparr>"
    and stock: "p_quantity product = 50"
    and hist: "getSalesHistory sb clk k userId productId 30 = (Inr (constantSeries t 30 10), k1)"
    and lead: "ruleLeadTimeDays (resp_data (reorder_rules_single sb userId productId)) = 7"
    and safety: "ruleSafetyStockDays (resp_data (reorder_rules_single sb userId productId)) = 3"
    and pinned: "clk (Suc (Suc k1)) = clk (Suc k1)"
    and valid: "\<bar>clk (Suc k1) + 5 * msPerDay\<bar> \<le> maxTime"
  shows "predictSingleProduct sb clk k userId productId daysAhead =
           (Inr \<lparr> product_id = p_id product,
                  product_name = p_name product,
                  current_stock = 50,
                  predicted_runout_date = clk (Suc k1) + 5 * msPerDay,
                  days_until_runout = 5,
                  suggested_reorder_quantity = Fin 100,
                  confidence_score = Fin 0.95,
                  urgency = High,
                  should_reorder = True \<rparr>, Suc (Suc (Suc k1)))
       \<and> detectTrend (constantSeries t 30 10) = Stable
       \<and> dailyAverageSales (fst (predictStockNeeds clk k1 (constantSeries t 30 10) 50 7 3))
           = Fin 10
       \<and> seasonalFactor (fst (predictStockNeeds clk k1 (constantSeries t 30 10) 50 7 3))
           = Fin 1"
proof -
  have days: "(clk (Suc k1) + 5 * msPerDay - clk (Suc k1)) div msPerDay = 5"
    by (simp add: msPerDay_def)
  have ticks: "seasonalTicks k1 (constantSeries t 30 10) = Suc k1"
    by (simp add: seasonalTicks_def length_constantSeries)
  have out: "stockoutDays (getDay (clk k1)) (constantSeries t 30 10) 50 = Fin 5"
    by (simp add: stockoutDays_def adjustedSalesValue_constantSeries_30 fromReal_small)
  have "predictSingleProduct sb clk k userId productId daysAhead =
           (Inr \<lparr> product_id = p_id product,
                  product_name = p_name product,
                  current_stock = 50,
                  predicted_runout_date = clk (Suc k1) + 5 * msPerDay,
                  days_until_runout = 5,
                  suggested_reorder_quantity = Fin 100,
                  confidence_score = Fin 0.95,
                  urgency = High,
                  should_reorder = True \<rparr>, Suc (Suc (Suc k1)))"
    unfolding predictSingleProduct_ordinary [OF found hist ordinary_small(2)] Let_def lead safety
      stock ticks out
    using valid
    by (simp add: adjustedSalesValue_constantSeries_30 pinned days msPerDay_nonzero
        calculateConfidence_30 urgencyOf_def fromReal_small Math_max_Fin)
  moreover have "dailyAverageSales
      (fst (predictStockNeeds clk k1 (constantSeries t 30 10) 50 7 3)) = Fin 10"
    by (simp add: predictStockNeeds_eq [OF ordinary_small(2)] adjustedSalesValue_constantSeries_30)
  moreover have "seasonalFactor
      (fst (predictStockNeeds clk k1 (constantSeries t 30 10) 50 7 3)) = Fin 1"
    by (simp add: predictStockNeeds_eq [OF ordinary_small(2)] seasonalFactorValue_constantSeries)
  ultimately show ?thesis
    by (simp add: detectTrend_constantSeries_30)
qed

lemma valid_times_30:
  "\<bar>30 * msPerDay - 30 * msPerDay\<bar> \<le> maxTime" "\<bar>30 * msPerDay + 5 * msPerDay\<bar> \<le> maxTime"
  by (simp_all add: msPerDay_def maxTime_def)

text \<open>Scenario A on the table client, the thirty days ending the day before the pinned now.\<close>

theorem constant_series_forecast_witness:
  "predictSingleProduct
     (tableClient [(''p1'', rice)] [] [(''p1'', dailyRows 0 30 10)] [])
     (pinnedClock (30 * msPerDay)) 0 ''u1'' ''p1'' 30 =
     (Inr \<lparr> product_id = ''p1'',
            product_name = ''Rice'',
            current_stock = 50,
            predicted_runout_date = 35 * msPerDay,
            days_until_runout = 5,
            suggested_reorder_quantity = Fin 100,
            confidence_score = Fin 0.95,
            urgency = High,
            should_reorder = True \<rparr>, 4)"
proof -
  let ?sb = "tableClient [(''p1'', rice)] [] [(''p1'', dailyRows 0 30 10)] []"
  let ?clk = "pinnedClock (30 * msPerDay)"
  have found: "products_single ?sb ''u1'' ''p1'' = \<lparr> resp_data = Some rice, resp_error = None \<rparr>"
    by (simp add: tableClient_def)
  have stock: "p_quantity rice = 50"
    by (simp add: rice_def)
  have hist: "getSalesHistory ?sb ?clk 0 ''u1'' ''p1'' 30 = (Inr (constantSeries 0 30 10), 1)"
    by (simp add: getSalesHistory_tableClient [OF valid_times_30(1)] dailyRows_points)
  have lead: "ruleLeadTimeDays (resp_data (reorder_rules_single ?sb ''u1'' ''p1'')) = 7"
    by (simp add: tableClient_def ruleLeadTimeDays_def)
  have safety: "ruleSafetyStockDays (resp_data (reorder_rules_single ?sb ''u1'' ''p1'')) = 3"
    by (simp add: tableClient_def ruleSafetyStockDays_def)
  have pinned: "?clk (Suc (Suc 1)) = ?clk (Suc 1)"
    by (simp add: pinnedClock_def)
  have valid: "\<bar>?clk (Suc 1) + 5 * msPerDay\<bar> \<le> maxTime"
    using valid_times_30(2) by (simp add: pinnedClock_def)
  show ?thesis
    using constant_series_forecast [OF found stock hist lead safety pinned valid, of 30]
    by (simp add: rice_def pinnedClock_def eval_nat_numeral)
qed

text \<open>
  Claim C9, as the code has it: when a forecast is returned, the lead time used is the
  stored rule's \<open>lead_time_days\<close> if a rule exists and that column is neither null nor 0,
  and 7 otherwise; the safety-stock days are \<open>ceil(safety_stock / 10)\<close> if a rule exists
  and that column is neither null nor 0, and 3 otherwise.  These are the values passed
  to \<open>predictStockNeeds\<close> and compared with the days until runout.
\<close>

theorem rule_lead_time_and_safety_days:
  fixes sb :: supabase and product :: Product and userId productId :: string
  defines "rule \<equiv> resp_data (reorder_rules_single sb userId productId)"
  defines "L \<equiv> (case rule of
                   None \<Rightarrow> 7
                 | Some r \<Rightarrow> (case lead_time_days r of
                               None \<Rightarrow> 7
                             | Some l \<Rightarrow> if l = 0 then 7 else l))"
  defines "S \<equiv> (case rule of
                   None \<Rightarrow> 3
                 | Some r \<Rightarrow> (case safety_stock r of
                               None \<Rightarrow> 3
                             | Some s \<Rightarrow> if s = 0 then 3 else of_int \<lceil>s / 10\<rceil>))"
  assumes found: "products_single sb userId productId =
                    \<lparr> resp_data = Some product, resp_error = None \<rparr>"
    and hist: "getSalesHistory sb clk k userId productId 30 = (Inr xs, k1)"
    and result: "predictSingleProduct sb clk k userId productId daysAhead = (Inr f, k2)"
  shows "suggested_reorder_quantity f =
           suggestedReorderQuantity (fst (predictStockNeeds clk k1 xs (p_quantity product) L S))
       \<and> should_reorder f = (of_int (days_until_runout f) \<le> L)"
proof -
  have L: "ruleLeadTimeDays rule = L"
    by (simp add: ruleLeadTimeDays_def L_def split: option.splits)
  have S: "ruleSafetyStockDays rule = S"
    by (simp add: ruleSafetyStockDays_def S_def split: option.splits)
  show ?thesis
    using result
    unfolding predictSingleProduct_found [OF found hist] Let_def rule_def [symmetric] L S
    by (auto split: jsdate.splits)
qed

lemma adjustedSalesValue_single:
  "0 < n \<Longrightarrow> n < 7 \<Longrightarrow> adjustedSalesValue today (constantSeries t n q) = q"
  by (simp add: adjustedSalesValue_def movingAverageValue_constantSeries seasonalFactorValue_def
      length_constantSeries detectTrend_def trendFactorValue_def)

lemma calculateConfidence_single:
  "0 < n \<Longrightarrow> n < 7 \<Longrightarrow> calculateConfidence (constantSeries t n q) = Fin 0.4"
  by (simp add: calculateConfidence_def length_constantSeries)

lemma valid_runout:
  assumes "0 \<le> n" "n \<le> 10000"
  shows "\<bar>30 * msPerDay + n * msPerDay\<bar> \<le> maxTime"
proof -
  have "\<bar>30 * msPerDay + n * msPerDay\<bar> = (30 + n) * 86400000"
    using assms by (simp add: msPerDay_def algebra_simps)
  also have "\<dots> \<le> 10030 * 86400000"
    using assms by simp
  also have "\<dots> \<le> maxTime"
    by (simp add: maxTime_def)
  finally show ?thesis .
qed

lemma runout_days: "(30 * msPerDay + n * msPerDay - 30 * msPerDay) div msPerDay = n"
  by (simp add: msPerDay_def)

text \<open>
  \<open>predictSingleProduct\<close> on the table client with the clock pinned at day 30, for a
  product with one sale of 10 and for a product without sales.
\<close>

lemma predictSingleProduct_oneSale:
  assumes found: "map_of found productId = Some product"
    and sales: "map_of sales productId = Some oneSale"
    and n: "\<lfloor>p_quantity product / 10\<rfloor> = n" "0 \<le> n" "n \<le> 10000"
  shows "predictSingleProduct (tableClient found listed sales rules)
           (pinnedClock (30 * msPerDay)) k userId productId daysAhead =
     (Inr \<lparr> product_id = p_id product,
            product_name = p_name product,
            current_stock = p_quantity product,
            predicted_runout_date = 30 * msPerDay + n * msPerDay,
            days_until_runout = n,
            suggested_reorder_quantity =
              Math_max (Math_ceil (fromReal (10 * (ruleLeadTimeDays (map_of rules productId)
                + ruleSafetyStockDays (map_of rules productId))))) (Fin 10),
            confidence_score = Fin 0.4,
            urgency = urgencyOf n,
            should_reorder = (of_int n \<le> ruleLeadTimeDays (map_of rules productId)) \<rparr>,
      Suc (Suc (Suc k)))"
proof -
  let ?sb = "tableClient found listed sales rules"
  let ?clk = "pinnedClock (30 * msPerDay)"
  have f: "products_single ?sb userId productId =
             \<lparr> resp_data = Some product, resp_error = None \<rparr>"
    by (simp add: tableClient_def found)
  have hist: "getSalesHistory ?sb ?clk k userId productId 30 =
                (Inr (constantSeries 0 1 10), Suc k)"
    by (simp add: getSalesHistory_tableClient [OF valid_times_30(1)] dailyRows_points
        oneSale_def sales)
  have rule: "resp_data (reorder_rules_single ?sb userId productId) = map_of rules productId"
    by (simp add: tableClient_def split: option.splits)
  have ticks: "seasonalTicks (Suc k) (constantSeries 0 1 10) = Suc k"
    by (simp add: seasonalTicks_def length_constantSeries)
  have "fromReal (p_quantity product / 10) = Fin (p_quantity product / 10)"
    by (rule fromReal_days [OF n])
  then have out: "Math_floor (stockoutDays (getDay (?clk (Suc k))) (constantSeries 0 1 10)
               (p_quantity product)) = Fin (of_int n)"
    by (simp add: stockoutDays_def adjustedSalesValue_single n(1))
  have valid: "\<bar>30 * msPerDay + n * msPerDay\<bar> \<le> maxTime"
    by (rule valid_runout [OF n(2,3)])
  show ?thesis
    unfolding predictSingleProduct_ordinary [OF f hist ordinary_small(3)] Let_def rule ticks out
    using valid n(2)
    by (simp add: adjustedSalesValue_single calculateConfidence_single pinnedClock_def
        runout_days msPerDay_nonzero)
qed

lemma predictSingleProduct_noSales:
  assumes found: "map_of found productId = Some product"
    and sales: "map_of sales productId = None"
  shows "predictSingleProduct (tableClient found listed sales rules)
           (pinnedClock (30 * msPerDay)) k userId productId daysAhead =
     (Inr \<lparr> product_id = p_id product,
            product_name = p_name product,
            current_stock = p_quantity product,
            predicted_runout_date = 30 * msPerDay + 9999 * msPerDay,
            days_until_runout = 9999,
            suggested_reorder_quantity = Fin 10,
            confidence_score = Fin 0.1,
            urgency = Low,
            should_reorder = (9999 \<le> ruleLeadTimeDays (map_of rules productId)) \<rparr>,
      Suc (Suc (Suc k)))"
proof -
  let ?sb = "tableClient found listed sales rules"
  let ?clk = "pinnedClock (30 * msPerDay)"
  have f: "products_single ?sb userId productId =
             \<lparr> resp_data = Some product, resp_error = None \<rparr>"
    by (simp add: tableClient_def found)
  have hist: "getSalesHistory ?sb ?clk k userId productId 30 = (Inr [], Suc k)"
    by (simp add: getSalesHistory_tableClient [OF valid_times_30(1)] sales)
  have rule: "resp_data (reorder_rules_single ?sb userId productId) = map_of rules productId"
    by (simp add: tableClient_def split: option.splits)
  have valid: "\<bar>30 * msPerDay + 9999 * msPerDay\<bar> \<le> maxTime"
    by (rule valid_runout) simp_all
  show ?thesis
    unfolding predictSingleProduct_ordinary [OF f hist ordinarySeries_Nil] Let_def rule
      stockoutDays_empty
    using valid
    by (simp add: seasonalTicks_def adjustedSalesValue_empty fromReal_zero Math_max_Fin
        calculateConfidence_def pinnedClock_def runout_days msPerDay_nonzero urgencyOf_def)
qed

lemma predictSingleProduct_missing:
  assumes "map_of found productId = None"
  shows "predictSingleProduct (tableClient found listed sales rules) clk k userId productId
           daysAhead = (Inl ProductNotFound, k)"
  by (rule predictSingleProduct_not_found) (simp add: tableClient_def assms)

text \<open>
  Claim C9 as stated fails for a stored rule whose safety stock is 0, the default of the
  rule-setting tool: the claim gives \<open>ceil(0 / 10) = 0\<close> safety-stock days and a reorder
  quantity of 50 for 10 sales a day and lead time 5; the code falls back to 3 days and
  suggests 80.
\<close>

theorem rule_with_zero_safety_stock:
  "predictSingleProduct
     (tableClient [(''p1'', rice)] [] [(''p1'', oneSale)] [(''p1'', ruleFiveZero)])
     (pinnedClock (30 * msPerDay)) 0 ''u1'' ''p1'' 30 =
     (Inr \<lparr> product_id = ''p1'',
            product_name = ''Rice'',
            current_stock = 50,
            predicted_runout_date = 35 * msPerDay,
            days_until_runout = 5,
            suggested_reorder_quantity = Fin 80,
            confidence_score = Fin 0.4,
            urgency = High,
            should_reorder = True \<rparr>, 3)
   \<and> suggestedReorderQuantity
       (fst (predictStockNeeds (pinnedClock (30 * msPerDay)) 1 (constantSeries 0 1 10) 50 5
               (of_int \<lceil>0 / 10 :: real\<rceil>))) = Fin 50"
proof -
  have "suggestedReorderQuantity
       (fst (predictStockNeeds (pinnedClock (30 * msPerDay)) 1 (constantSeries 0 1 10) 50 5
               (of_int \<lceil>0 / 10 :: real\<rceil>))) = Fin 50"
    unfolding predictStockNeeds_eq [OF ordinary_small(3)]
    by (simp add: adjustedSalesValue_single fromReal_small Math_max_Fin)
  moreover have "\<lfloor>p_quantity rice / 10\<rfloor> = 5"
    by (simp add: rice_def)
  ultimately show ?thesis
    by (simp add: predictSingleProduct_oneSale [where n = 5] ruleFiveZero_def
        ruleLeadTimeDays_def ruleSafetyStockDays_def rice_def urgencyOf_def eval_nat_numeral
        fromReal_small Math_max_Fin)
qed

text \<open>A rule with lead time 5 and safety stock 25: 5 days and \<open>ceil(2.5) = 3\<close> days.\<close>

theorem rule_lead_time_and_safety_days_witness:
  "predictSingleProduct
     (tableClient [(''p1'', rice)] [] [(''p1'', oneSale)] [(''p1'', ruleFiveTwentyFive)])
     (pinnedClock (30 * msPerDay)) 0 ''u1'' ''p1'' 30 =
     (Inr \<lparr> product_id = ''p1'', product_name = ''Rice'', current_stock = 50,
            predicted_runout_date = 35 * msPerDay, days_until_runout = 5,
            suggested_reorder_quantity = Fin 80, confidence_score = Fin 0.4,
            urgency = High, should_reorder = True \<rparr>, 3)
   \<and> suggestedReorderQuantity
       (fst (predictStockNeeds (pinnedClock (30 * msPerDay)) 1 (constantSeries 0 1 10) 50 5 3))
     = Fin 80"
proof -
  let ?sb = "tableClient [(''p1'', rice)] [] [(''p1'', oneSale)] [(''p1'', ruleFiveTwentyFive)]"
  let ?clk = "pinnedClock (30 * msPerDay)"
  have found: "products_single ?sb ''u1'' ''p1'' = \<lparr> resp_data = Some rice, resp_error = None \<rparr>"
    by (simp add: tableClient_def)
  have hist: "getSalesHistory ?sb ?clk 0 ''u1'' ''p1'' 30 = (Inr (constantSeries 0 1 10), 1)"
    by (simp add: getSalesHistory_tableClient [OF valid_times_30(1)] dailyRows_points oneSale_def)
  have fives: "\<lceil>25 / 10 :: real\<rceil> = 3"
    by linarith
  have result: "predictSingleProduct ?sb ?clk 0 ''u1'' ''p1'' 30 =
     (Inr \<lparr> product_id = ''p1'', product_name = ''Rice'', current_stock = 50,
       predicted_runout_date = 35 * msPerDay, days_until_runout = 5,
       suggested_reorder_quantity = Fin 80, confidence_score = Fin 0.4,
       urgency = High, should_reorder = True \<rparr>, 3)"
    by (simp add: predictSingleProduct_oneSale [where n = 5] ruleFiveTwentyFive_def
        ruleLeadTimeDays_def ruleSafetyStockDays_def fives rice_def urgencyOf_def
        eval_nat_numeral fromReal_small Math_max_Fin)
  show ?thesis
    using rule_lead_time_and_safety_days [OF found hist result] result
    by (simp add: tableClient_def ruleFiveTwentyFive_def rice_def fives)
qed

lemma forecastLoop_attempts:
  "fst (forecastLoop sb clk k userId daysAhead ps acc) =
     acc @ forecastsOf (attempts sb clk k userId daysAhead ps)"
proof (induction ps arbitrary: k acc)
  case Nil
  show ?case by simp
next
  case (Cons p ps)
  obtain r k1 where r: "predictSingleProduct sb clk k userId (p_id p) daysAhead = (r, k1)"
    by (cases "predictSingleProduct sb clk k userId (p_id p) daysAhead")
  show ?case
    by (cases r) (simp_all add: r Cons.IH)
qed

lemma insertBy_compareUrgency:
  "insertBy compareUrgency x ys = insort_key urgencyRank x ys"
  by (induction ys) (simp_all add: compareUrgency_def urgencyRank_def)

lemma sortBy_compareUrgency: "sortBy compareUrgency xs = sort_key urgencyRank xs"
  by (induction xs) (simp_all add: sortBy_def insertBy_compareUrgency)

lemma urgencyOrder_inj: "urgencyOrder a = urgencyOrder b \<longleftrightarrow> a = b"
  by (cases a; cases b) simp_all

lemma sameUrgency_rank: "sameUrgency u = (\<lambda>f. urgencyRank f = urgencyOrder u)"
  by (rule ext) (simp add: sameUrgency_def urgencyRank_def urgencyOrder_inj)

lemma sortBy_stable:
  "filter (sameUrgency u) (sortBy compareUrgency xs) = filter (sameUrgency u) xs"
  unfolding sortBy_compareUrgency sameUrgency_rank by (rule sort_key_stable)

lemma sortBy_sorted: "sorted (map urgencyRank (sortBy compareUrgency xs))"
  unfolding sortBy_compareUrgency by (rule sorted_sort_key)

lemma sortBy_mset: "mset (sortBy compareUrgency xs) = mset xs"
  unfolding sortBy_compareUrgency by simp

lemma getRestockRecommendations_fetched:
  assumes "resp_error (products_of_user sb userId) = None"
  shows "fst (getRestockRecommendations sb clk k userId opts) =
           Inr (sortBy compareUrgency
                  (forecastsOf (attempts sb clk k userId
                     (if (case timePeriod opts of Some p \<Rightarrow> p | None \<Rightarrow> Week) = Week then 7 else 30)
                     (catalogOf sb userId opts))))"
  using assms
  by (auto simp: getRestockRecommendations_def catalogOf_def Let_def forecastLoop_attempts
      sortBy_def split: option.splits)

lemma predictSingleProduct_daysAhead:
  "predictSingleProduct sb clk k userId productId d = predictSingleProduct sb clk k userId productId d'"
  by (simp add: predictSingleProduct_def)

lemma attempts_daysAhead:
  "attempts sb clk k userId d ps = attempts sb clk k userId d' ps"
  by (induction ps arbitrary: k) (simp_all add: predictSingleProduct_daysAhead [of _ _ _ _ _ d d'])

lemma forecastLoop_daysAhead:
  "forecastLoop sb clk k userId d ps acc = forecastLoop sb clk k userId d' ps acc"
  by (induction ps arbitrary: k acc)
    (simp_all add: predictSingleProduct_daysAhead [of _ _ _ _ _ d d'] split: prod.splits sum.splits)

lemma daysAheadOf_eq:
  "(if (case timePeriod opts of Some p \<Rightarrow> p | None \<Rightarrow> Week) = Week then 7 else 30) =
     daysAheadOf opts"
  by (cases "timePeriod opts"; cases "the (timePeriod opts)") (simp_all add: daysAheadOf_def)

lemma getRestockRecommendations_failed:
  assumes "resp_error (products_of_user sb userId) = Some msg"
  shows "getRestockRecommendations sb clk k userId opts = (Inl (FetchFailed msg), k)"
  using assms by (simp add: getRestockRecommendations_def Let_def)

text \<open>
  \<open>getSalesHistory\<close> reads the \<open>data\<close> of its two queries and never their \<open>error\<close>: when
  both queries fail it returns the empty series, and the product is forecast as one
  without sales.
\<close>

lemma getSalesHistory_unavailable:
  assumes "resp_data (sales_history_daily sb userId productId
                        ((clk k - 30 * msPerDay) div msPerDay)) = None"
    and "resp_data (invoice_items_paid sb userId productId (clk k - 30 * msPerDay)) = None"
    and "\<bar>clk k - 30 * msPerDay\<bar> \<le> maxTime"
  shows "getSalesHistory sb clk k userId productId 30 = (Inr [], Suc k)"
  unfolding getSalesHistory_valid [where clk = clk and days = 30, OF assms(3)]
  by (simp add: assms(1,2))

lemma predictSingleProduct_unavailable:
  assumes found: "products_single sb userId productId =
                    \<lparr> resp_data = Some product, resp_error = None \<rparr>"
    and hist: "getSalesHistory sb clk k userId productId 30 = (Inr [], Suc k)"
    and valid: "\<bar>clk (Suc k) + 9999 * msPerDay\<bar> \<le> maxTime"
  shows "predictSingleProduct sb clk k userId productId daysAhead =
     (Inr \<lparr> product_id = p_id product,
            product_name = p_name product,
            current_stock = p_quantity product,
            predicted_runout_date = clk (Suc k) + 9999 * msPerDay,
            days_until_runout =
              max 0 ((clk (Suc k) + 9999 * msPerDay - clk (Suc (Suc k))) div msPerDay),
            suggested_reorder_quantity = Fin 10,
            confidence_score = Fin 0.1,
            urgency =
              urgencyOf (max 0 ((clk (Suc k) + 9999 * msPerDay - clk (Suc (Suc k))) div msPerDay)),
            should_reorder =
              (of_int (max 0 ((clk (Suc k) + 9999 * msPerDay - clk (Suc (Suc k))) div msPerDay))
                 \<le> ruleLeadTimeDays (resp_data (reorder_rules_single sb userId productId))) \<rparr>,
      Suc (Suc (Suc k)))"
  unfolding predictSingleProduct_ordinary [OF found hist ordinarySeries_Nil] Let_def
    stockoutDays_empty
  using valid
  by (simp add: seasonalTicks_def adjustedSalesValue_empty fromReal_zero Math_max_Fin
      calculateConfidence_def)

lemma historyDown_queries:
  "products_single (historyDown sb) = products_single sb"
  "reorder_rules_single (historyDown sb) = reorder_rules_single sb"
  "products_of_user (historyDown sb) = products_of_user sb"
  "sales_history_daily (historyDown sb) userId productId day =
     \<lparr> resp_data = None, resp_error = Some ''timeout'' \<rparr>"
  "invoice_items_paid (historyDown sb) userId productId start =
     \<lparr> resp_data = None, resp_error = Some ''timeout'' \<rparr>"
  by (simp_all add: historyDown_def)

lemma predictSingleProduct_historyDown:
  assumes found: "map_of found productId = Some product"
  shows "predictSingleProduct (historyDown (tableClient found listed sales rules))
           (pinnedClock (30 * msPerDay)) k userId productId daysAhead =
     (Inr \<lparr> product_id = p_id product,
            product_name = p_name product,
            current_stock = p_quantity product,
            predicted_runout_date = 30 * msPerDay + 9999 * msPerDay,
            days_until_runout = 9999,
            suggested_reorder_quantity = Fin 10,
            confidence_score = Fin 0.1,
            urgency = Low,
            should_reorder = (9999 \<le> ruleLeadTimeDays (map_of rules productId)) \<rparr>,
      Suc (Suc (Suc k)))"
proof -
  let ?sb = "historyDown (tableClient found listed sales rules)"
  let ?clk = "pinnedClock (30 * msPerDay)"
  have f: "products_single ?sb userId productId =
             \<lparr> resp_data = Some product, resp_error = None \<rparr>"
    by (simp add: historyDown_queries tableClient_def found)
  have start: "\<bar>?clk k - 30 * msPerDay\<bar> \<le> maxTime"
    by (simp add: pinnedClock_def maxTime_def)
  have hist: "getSalesHistory ?sb ?clk k userId productId 30 = (Inr [], Suc k)"
    by (rule getSalesHistory_unavailable [where clk = ?clk])
      (simp_all add: historyDown_queries start)
  have rule: "resp_data (reorder_rules_single ?sb userId productId) = map_of rules productId"
    by (simp add: historyDown_queries tableClient_def split: option.splits)
  have valid: "\<bar>?clk (Suc k) + 9999 * msPerDay\<bar> \<le> maxTime"
    unfolding pinnedClock_def by (rule valid_runout) simp_all
  show ?thesis
    unfolding predictSingleProduct_unavailable [OF f hist valid] rule
    by (simp add: pinnedClock_def runout_days msPerDay_nonzero urgencyOf_def)
qed

lemma predictSingleProduct_historyDown_missing:
  assumes "map_of found productId = None"
  shows "predictSingleProduct (historyDown (tableClient found listed sales rules)) clk k userId
           productId daysAhead = (Inl ProductNotFound, k)"
  by (rule predictSingleProduct_not_found)
    (simp add: historyDown_queries tableClient_def assms)

text \<open>
  Claim C2, as the code has it: when the catalog is fetched, the batch returns a list (it
  never fails), and the list holds exactly the forecasts of the products whose own
  \<open>predictSingleProduct\<close> call returned: a product whose call throws (the product is not
  found, or a date is out of range) is left out and the loop goes on.  An unavailable
  history is no such failure: when both history queries of a found product resolve to no
  data, the call returns the forecast of a product without sales (reorder quantity 10,
  confidence 0.1), so that product stays in the list.
\<close>

theorem failed_products_skipped:
  assumes "resp_error (products_of_user sb userId) = None"
  shows "(\<exists>fs. fst (getRestockRecommendations sb clk k userId opts) = Inr fs
             \<and> mset fs = mset (forecastsOf (attempts sb clk k userId (daysAheadOf opts)
                                               (catalogOf sb userId opts))))
       \<and> (products_single sb userId productId =
            \<lparr> resp_data = Some product, resp_error = None \<rparr>
          \<and> resp_data (sales_history_daily sb userId productId
                         ((clk j - 30 * msPerDay) div msPerDay)) = None
          \<and> resp_data (invoice_items_paid sb userId productId (clk j - 30 * msPerDay)) = None
          \<and> \<bar>clk j - 30 * msPerDay\<bar> \<le> maxTime
          \<and> \<bar>clk (Suc j) + 9999 * msPerDay\<bar> \<le> maxTime
          \<longrightarrow> (\<exists>f. fst (predictSingleProduct sb clk j userId productId daysAhead) = Inr f
                   \<and> product_id f = p_id product
                   \<and> suggested_reorder_quantity f = Fin 10
                   \<and> confidence_score f = Fin 0.1))"
proof (intro conjI impI)
  show "\<exists>fs. fst (getRestockRecommendations sb clk k userId opts) = Inr fs
             \<and> mset fs = mset (forecastsOf (attempts sb clk k userId (daysAheadOf opts)
                                               (catalogOf sb userId opts)))"
    by (simp add: getRestockRecommendations_fetched [OF assms] daysAheadOf_eq sortBy_mset)
next
  assume down: "products_single sb userId productId =
            \<lparr> resp_data = Some product, resp_error = None \<rparr>
          \<and> resp_data (sales_history_daily sb userId productId
                         ((clk j - 30 * msPerDay) div msPerDay)) = None
          \<and> resp_data (invoice_items_paid sb userId productId (clk j - 30 * msPerDay)) = None
          \<and> \<bar>clk j - 30 * msPerDay\<bar> \<le> maxTime
          \<and> \<bar>clk (Suc j) + 9999 * msPerDay\<bar> \<le> maxTime"
  then have hist: "getSalesHistory sb clk j userId productId 30 = (Inr [], Suc j)"
    by (intro getSalesHistory_unavailable) simp_all
  from down have found: "products_single sb userId productId =
            \<lparr> resp_data = Some product, resp_error = None \<rparr>"
    and valid: "\<bar>clk (Suc j) + 9999 * msPerDay\<bar> \<le> maxTime"
    by simp_all
  show "\<exists>f. fst (predictSingleProduct sb clk j userId productId daysAhead) = Inr f
                   \<and> product_id f = p_id product
                   \<and> suggested_reorder_quantity f = Fin 10
                   \<and> confidence_score f = Fin 0.1"
    unfolding predictSingleProduct_daysAhead [of sb clk j userId productId daysAhead 30]
      predictSingleProduct_unavailable [OF found hist valid]
    by simp
qed

lemma attempts_shopWithGhost:
  "attempts (historyDown shopWithGhost) (pinnedClock (30 * msPerDay)) 0 ''u1'' d
     [catalogEntry ghost, catalogEntry rice] =
     [Inl ProductNotFound, Inr riceWithoutHistory]"
proof -
  have rice: "predictSingleProduct (historyDown shopWithGhost) (pinnedClock (30 * msPerDay)) 0
                ''u1'' ''p1'' d = (Inr riceWithoutHistory, 3)"
    unfolding shopWithGhost_def
    by (simp add: predictSingleProduct_historyDown ruleLeadTimeDays_def riceWithoutHistory_def
        rice_def eval_nat_numeral)
  have ghost: "predictSingleProduct (historyDown shopWithGhost) (pinnedClock (30 * msPerDay)) 0
                 ''u1'' ''p0'' d = (Inl ProductNotFound, 0)"
    unfolding shopWithGhost_def
    by (simp add: predictSingleProduct_historyDown_missing)
  show ?thesis
    by (simp add: catalogEntry_def ghost_def rice_def ghost rice)
qed

lemma attempts_shopHistoryDown:
  "attempts shopHistoryDown (pinnedClock (30 * msPerDay)) 0 ''u1'' d [catalogEntry rice] =
     [Inr riceWithoutHistory]"
proof -
  have rice: "predictSingleProduct shopHistoryDown (pinnedClock (30 * msPerDay)) 0
                ''u1'' ''p1'' d = (Inr riceWithoutHistory, 3)"
    unfolding shopHistoryDown_def
    by (simp add: predictSingleProduct_historyDown ruleLeadTimeDays_def riceWithoutHistory_def
        rice_def eval_nat_numeral)
  show ?thesis
    by (simp add: catalogEntry_def rice_def rice)
qed

lemma catalogOf_tableClient:
  "catalogOf (tableClient found ls sales rules) userId defaultOptions = ls"
  by (simp add: catalogOf_def tableClient_def defaultOptions_def)

lemma catalogOf_historyDown: "catalogOf (historyDown sb) userId opts = catalogOf sb userId opts"
  by (simp add: catalogOf_def historyDown_queries)

text \<open>
  Claim C2 as stated fails when the history of a product is unavailable: with both history
  queries of the rice answering an error, the rice is not omitted; the batch returns for
  it the forecast of a product without sales, 9999 days from running out, urgency low and
  no reorder, although its sales rows hold a sale of 10 and its stock is 50.
\<close>

theorem unavailable_history_not_skipped:
  "resp_error (sales_history_daily shopHistoryDown ''u1'' ''p1'' 0) = Some ''timeout''
   \<and> resp_error (invoice_items_paid shopHistoryDown ''u1'' ''p1'' 0) = Some ''timeout''
   \<and> fst (getRestockRecommendations shopHistoryDown (pinnedClock (30 * msPerDay)) 0 ''u1''
            defaultOptions) = Inr [riceWithoutHistory]"
proof -
  have ok: "resp_error (products_of_user shopHistoryDown ''u1'') = None"
    by (simp add: shopHistoryDown_def historyDown_queries tableClient_def)
  have cat: "catalogOf shopHistoryDown ''u1'' defaultOptions = [catalogEntry rice]"
    by (simp add: shopHistoryDown_def catalogOf_historyDown catalogOf_tableClient)
  have "fst (getRestockRecommendations shopHistoryDown (pinnedClock (30 * msPerDay)) 0 ''u1''
            defaultOptions) = Inr [riceWithoutHistory]"
    by (simp add: getRestockRecommendations_fetched [OF ok] cat attempts_shopHistoryDown
        sortBy_def del: attempts.simps)
  then show ?thesis
    by (simp add: shopHistoryDown_def historyDown_queries)
qed

text \<open>
  The catalog with the ghost product, the sales history down: the ghost is not found and
  is left out; the rice is found, is forecast without its history and is returned.
\<close>

theorem failed_products_skipped_witness:
  "resp_error (products_of_user (historyDown shopWithGhost) ''u1'') = None
   \<and> fst (predictSingleProduct (historyDown shopWithGhost) (pinnedClock (30 * msPerDay)) 0
            ''u1'' ''p0'' 7) = Inl ProductNotFound
   \<and> products_single (historyDown shopWithGhost) ''u1'' ''p1'' =
       \<lparr> resp_data = Some rice, resp_error = None \<rparr>
   \<and> resp_data (sales_history_daily (historyDown shopWithGhost) ''u1'' ''p1'' 0) = None
   \<and> resp_data (invoice_items_paid (historyDown shopWithGhost) ''u1'' ''p1'' 0) = None
   \<and> fst (predictSingleProduct (historyDown shopWithGhost) (pinnedClock (30 * msPerDay)) 0
            ''u1'' ''p1'' 7) = Inr riceWithoutHistory
   \<and> fst (getRestockRecommendations (historyDown shopWithGhost) (pinnedClock (30 * msPerDay)) 0
            ''u1'' defaultOptions) = Inr [riceWithoutHistory]"
proof -
  let ?sb = "historyDown shopWithGhost"
  let ?clk = "pinnedClock (30 * msPerDay)"
  have ok: "resp_error (products_of_user ?sb ''u1'') = None"
    by (simp add: shopWithGhost_def historyDown_queries tableClient_def)
  have cat: "catalogOf ?sb ''u1'' defaultOptions = [catalogEntry ghost, catalogEntry rice]"
    by (simp add: shopWithGhost_def catalogOf_historyDown catalogOf_tableClient)
  have ghost: "fst (predictSingleProduct ?sb ?clk 0 ''u1'' ''p0'' 7) = Inl ProductNotFound"
    unfolding shopWithGhost_def by (simp add: predictSingleProduct_historyDown_missing)
  have found: "products_single ?sb ''u1'' ''p1'' = \<lparr> resp_data = Some rice, resp_error = None \<rparr>"
    by (simp add: shopWithGhost_def historyDown_queries tableClient_def)
  have down: "resp_data (sales_history_daily ?sb ''u1'' ''p1'' 0) = None"
    "resp_data (invoice_items_paid ?sb ''u1'' ''p1'' 0) = None"
    by (simp_all add: historyDown_queries)
  have rice: "fst (predictSingleProduct ?sb ?clk 0 ''u1'' ''p1'' 7) = Inr riceWithoutHistory"
    unfolding shopWithGhost_def
    by (simp add: predictSingleProduct_historyDown ruleLeadTimeDays_def riceWithoutHistory_def
        rice_def)
  have valid: "\<bar>?clk 0 - 30 * msPerDay\<bar> \<le> maxTime" "\<bar>?clk (Suc 0) + 9999 * msPerDay\<bar> \<le> maxTime"
    by (simp_all add: pinnedClock_def msPerDay_def maxTime_def)
  have start: "?clk 0 - 30 * msPerDay = 0"
    by (simp add: pinnedClock_def)
  show ?thesis
    using failed_products_skipped [OF ok, where clk = ?clk and k = 0 and opts = defaultOptions
        and productId = "''p1''" and product = rice and j = 0 and daysAhead = 7]
    by (auto simp: ok ghost found down rice valid start cat attempts_shopWithGhost
        simp del: attempts.simps)
qed

text \<open>
  Claim C3, as the code has it: the returned list is sorted ascending by urgency rank, and
  the results of equal urgency keep the order in which their products were forecast (the
  catalog order), whatever their days until runout.
\<close>

theorem recommendations_sorted_by_urgency:
  assumes "fst (getRestockRecommendations sb clk k userId opts) = Inr fs"
  shows "sorted (map urgencyRank fs)
       \<and> filter (sameUrgency u) fs =
           filter (sameUrgency u)
             (forecastsOf (attempts sb clk k userId (daysAheadOf opts) (catalogOf sb userId opts)))"
proof (cases "resp_error (products_of_user sb userId)")
  case None
  from assms have "fs = sortBy compareUrgency
      (forecastsOf (attempts sb clk k userId (daysAheadOf opts) (catalogOf sb userId opts)))"
    by (simp add: getRestockRecommendations_fetched [OF None] daysAheadOf_eq)
  then show ?thesis
    by (simp add: sortBy_sorted sortBy_stable)
next
  case (Some msg)
  with assms show ?thesis
    by (simp add: getRestockRecommendations_failed)
qed

lemma attempts_shopWellStocked:
  "attempts shopWellStocked (pinnedClock (30 * msPerDay)) 0 ''u1'' d [catalogEntry dal, catalogEntry sugar] =
     [Inr dalForecast, Inr sugarForecast]"
proof -
  have n: "\<lfloor>p_quantity sugar / 10\<rfloor> = 20"
    by (simp add: sugar_def)
  have dal: "predictSingleProduct shopWellStocked (pinnedClock (30 * msPerDay)) 0 ''u1'' ''p2'' d =
                (Inr dalForecast, 3)"
    unfolding shopWellStocked_def
    by (simp add: predictSingleProduct_noSales ruleLeadTimeDays_def dalForecast_def dal_def
        eval_nat_numeral)
  have sugar: "predictSingleProduct shopWellStocked (pinnedClock (30 * msPerDay)) 3 ''u1'' ''p3'' d =
                (Inr sugarForecast, 6)"
    unfolding shopWellStocked_def
    by (simp add: predictSingleProduct_oneSale [where n = 20] n ruleLeadTimeDays_def
        ruleSafetyStockDays_def sugarForecast_def sugar_def urgencyOf_def eval_nat_numeral
        fromReal_small Math_max_Fin)
  show ?thesis
    by (simp add: catalogEntry_def dal_def sugar_def dal sugar)
qed

lemma recommendations_shopWellStocked:
  "fst (getRestockRecommendations shopWellStocked (pinnedClock (30 * msPerDay)) 0 ''u1''
          defaultOptions) = Inr [dalForecast, sugarForecast]"
proof -
  have ok: "resp_error (products_of_user shopWellStocked ''u1'') = None"
    by (simp add: shopWellStocked_def tableClient_def)
  have cat: "catalogOf shopWellStocked ''u1'' defaultOptions = [catalogEntry dal, catalogEntry sugar]"
    by (simp add: shopWellStocked_def catalogOf_tableClient)
  show ?thesis
    by (simp add: getRestockRecommendations_fetched [OF ok] cat attempts_shopWellStocked
        sortBy_def compareUrgency_def dalForecast_def sugarForecast_def
        del: attempts.simps)
qed

text \<open>
  Claim C3 as stated fails on two products of urgency low: the dal, without sales, comes
  first with 9999 days until runout, the sugar second with 20 days.
\<close>

theorem equal_urgency_not_by_runout:
  "fst (getRestockRecommendations shopWellStocked (pinnedClock (30 * msPerDay)) 0 ''u1''
          defaultOptions) = Inr [dalForecast, sugarForecast]
   \<and> urgency dalForecast = urgency sugarForecast
   \<and> days_until_runout sugarForecast < days_until_runout dalForecast
   \<and> \<not> sorted_wrt rankedBefore [dalForecast, sugarForecast]"
  by (simp add: recommendations_shopWellStocked rankedBefore_def urgencyRank_def
      dalForecast_def sugarForecast_def)

text \<open>The same shop: the list is sorted by rank and the two low results keep catalog order.\<close>

theorem recommendations_sorted_by_urgency_witness:
  "fst (getRestockRecommendations shopWellStocked (pinnedClock (30 * msPerDay)) 0 ''u1''
          defaultOptions) = Inr [dalForecast, sugarForecast]
   \<and> sorted (map urgencyRank [dalForecast, sugarForecast])
   \<and> filter (sameUrgency Low) [dalForecast, sugarForecast] = [dalForecast, sugarForecast]"
proof -
  have low: "filter (sameUrgency Low) [dalForecast, sugarForecast] = [dalForecast, sugarForecast]"
    by (simp add: sameUrgency_def dalForecast_def sugarForecast_def)
  have "sorted (map urgencyRank [dalForecast, sugarForecast])"
    using recommendations_sorted_by_urgency [OF recommendations_shopWellStocked, of Low]
    by (rule conjunct1)
  with recommendations_shopWellStocked low show ?thesis
    by simp
qed

text \<open>
  Claim C10: two calls that differ only in the \<open>timePeriod\<close> option, against the same
  database answers and clock, return the same result: \<open>daysAhead\<close> is passed to
  \<open>predictSingleProduct\<close>, which never uses it and always asks for 30 days of history.
\<close>

theorem timePeriod_ignored:
  "getRestockRecommendations sb clk k userId (opts\<lparr>timePeriod := Some Week\<rparr>) =
     getRestockRecommendations sb clk k userId (opts\<lparr>timePeriod := Some Month\<rparr>)
   \<and> predictSingleProduct sb clk k userId productId 7 =
       predictSingleProduct sb clk k userId productId 30"
proof -
  have loop: "forecastLoop sb clk k userId 7 ps [] = forecastLoop sb clk k userId 30 ps []" for ps
    by (rule forecastLoop_daysAhead)
  have "getRestockRecommendations sb clk k userId (opts\<lparr>timePeriod := Some Week\<rparr>) =
     getRestockRecommendations sb clk k userId (opts\<lparr>timePeriod := Some Month\<rparr>)"
    unfolding getRestockRecommendations_def Let_def
    by (simp add: loop split: option.splits)
  moreover have "predictSingleProduct sb clk k userId productId 7 =
       predictSingleProduct sb clk k userId productId 30"
    by (rule predictSingleProduct_daysAhead)
  ultimately show ?thesis by simp
qed

end
